theory Spec2Isabelle
  imports Main "HOL-Library.Word"
begin

unbundle bit_operations_syntax

section \<open>The board: pins, shift registers and the EEPROM\<close>

text \<open>
  The three sketches of the repository (\<^verbatim>\<open>control-rom.ino\<close> and the two earlier revisions
  \<^verbatim>\<open>part_000\<close>, \<^verbatim>\<open>part_001\<close>) share one bus driver, word for word:
  \<^verbatim>\<open>setAddress\<close>, \<^verbatim>\<open>readEEPROM\<close>, \<^verbatim>\<open>writeEEPROM\<close>, \<^verbatim>\<open>printContents\<close>.
  They differ in \<^verbatim>\<open>writeInstruction\<close>, in the signal constants and in the fetch part of
  \<^verbatim>\<open>setup\<close>.

  The driver talks to hardware, so the state carries what the hardware remembers:
  \<^item> for every pin of the microcontroller its direction and the level of its output latch;
  \<^item> the 16-bit shift stage of the two chained shift registers and their 16-bit output
    stage (bits 0 to 10 drive the address inputs of the EEPROM, bit 15 drives its
    active-low output enable);
  \<^item> the 2048 cells of the EEPROM and a log of the write cycles it has performed,
    oldest first.
  C's \<^verbatim>\<open>int\<close> is modelled by \<^typ>\<open>int\<close>: every address the sketches compute lies between
  0 and 16383 and the complement of a timing bit is a small negative number, all far
  inside the 16-bit range. A \<^verbatim>\<open>byte\<close> is an 8-bit word.
  Serial output and the two delays of \<^verbatim>\<open>writeEEPROM\<close> change nothing in this state and are
  left out.
\<close>

type_synonym byte = "8 word"

datatype pin_mode = INPUT | OUTPUT

record board =
  mode :: "nat \<Rightarrow> pin_mode"
  level :: "nat \<Rightarrow> bool"
  shift_reg :: "16 word"
  latched :: "16 word"
  mem :: "nat \<Rightarrow> byte"
  writes :: "(nat \<times> byte) list"

definition SHIFT_DATA :: nat where "SHIFT_DATA = 2"
definition SHIFT_CLK :: nat where "SHIFT_CLK = 3"
definition SHIFT_LATCH :: nat where "SHIFT_LATCH = 4"
definition EEPROM_D0 :: nat where "EEPROM_D0 = 5"
definition EEPROM_D7 :: nat where "EEPROM_D7 = 12"
definition WRITE_EN :: nat where "WRITE_EN = 13"

definition LOW :: bool where "LOW = False"
definition HIGH :: bool where "HIGH = True"

text \<open>The address the EEPROM sees, and whether its outputs are disabled.\<close>

definition eeprom_addr :: "board \<Rightarrow> nat" where
  "eeprom_addr s = unat (take_bit 11 (latched s))"

definition oe_high :: "board \<Rightarrow> bool" where
  "oe_high s = bit (latched s) 15"

text \<open>
  The eight data pins, in the order of each
  \<^verbatim>\<open>for (int pin = EEPROM_D0; pin <= EEPROM_D7; pin += 1)\<close>, and the byte on the data bus
  as the microcontroller drives it: pin 5 is bit 0.
\<close>

definition data_pins :: "nat list" where
  "data_pins = [EEPROM_D0 ..< Suc EEPROM_D7]"

definition data_bus :: "board \<Rightarrow> byte" where
  "data_bus s = horner_sum of_bool 2 (map (level s) data_pins)"

text \<open>
  One write cycle of the EEPROM, at the rising edge that ends a write-enable pulse: the
  byte on the bus replaces the addressed cell (a byte-write part; the erase loop of the
  sketches, which writes \<^verbatim>\<open>0xff\<close>, relies on that). The part ignores the pulse while its
  outputs are enabled.
\<close>

definition write_cycle :: "board \<Rightarrow> board" where
  "write_cycle s =
     (if oe_high s
      then s\<lparr>mem := (mem s)(eeprom_addr s := data_bus s),
             writes := writes s @ [(eeprom_addr s, data_bus s)]\<rparr>
      else s)"

text \<open>
  The Arduino primitives. \<^verbatim>\<open>pinMode(pin, INPUT)\<close> also switches the pull-up off, which
  clears the output latch. \<^verbatim>\<open>digitalWrite\<close> sets the output latch; when the pin is an
  output and its level changes, the hardware behind the pin reacts to the edge:
  a rising shift clock shifts the data line in, a rising latch line copies the shift
  stage to the outputs, a rising write-enable line ends a write pulse.
\<close>

definition pinMode :: "nat \<Rightarrow> pin_mode \<Rightarrow> board \<Rightarrow> board" where
  "pinMode pin m s =
     (case m of
        INPUT \<Rightarrow> s\<lparr>mode := (mode s)(pin := INPUT), level := (level s)(pin := False)\<rparr>
      | OUTPUT \<Rightarrow> s\<lparr>mode := (mode s)(pin := OUTPUT)\<rparr>)"

definition digitalWrite :: "nat \<Rightarrow> bool \<Rightarrow> board \<Rightarrow> board" where
  "digitalWrite pin v s =
     (let s' = s\<lparr>level := (level s)(pin := v)\<rparr> in
      if mode s pin = OUTPUT \<and> \<not> level s pin \<and> v then
        if pin = SHIFT_CLK then
          s'\<lparr>shift_reg := push_bit 1 (shift_reg s) OR of_bool (level s SHIFT_DATA)\<rparr>
        else if pin = SHIFT_LATCH then s'\<lparr>latched := shift_reg s\<rparr>
        else if pin = WRITE_EN then write_cycle s'
        else s'
      else s')"

text \<open>
  A data pin that is an input reads what the EEPROM drives, when the EEPROM drives the
  bus (outputs enabled, no write pulse); any other pin reads its own latch.
\<close>

definition digitalRead :: "nat \<Rightarrow> board \<Rightarrow> bool" where
  "digitalRead pin s =
     (if EEPROM_D0 \<le> pin \<and> pin \<le> EEPROM_D7 \<and> mode s pin = INPUT
         \<and> \<not> oe_high s \<and> level s WRITE_EN
      then bit (mem s (eeprom_addr s)) (pin - EEPROM_D0)
      else level s pin)"

text \<open>
  \<^verbatim>\<open>shiftOut(dataPin, clockPin, MSBFIRST, val)\<close> of the Arduino core: eight times, put
  the next bit of \<open>val\<close> on the data pin, most significant first, and pulse the clock.
\<close>

definition shiftOut_bit :: "nat \<Rightarrow> nat \<Rightarrow> byte \<Rightarrow> nat \<Rightarrow> board \<Rightarrow> board" where
  "shiftOut_bit dataPin clockPin val i s =
     (let s = digitalWrite dataPin (val AND push_bit (7 - i) 1 \<noteq> 0) s;
          s = digitalWrite clockPin HIGH s;
          s = digitalWrite clockPin LOW s
      in s)"

definition shiftOut :: "nat \<Rightarrow> nat \<Rightarrow> byte \<Rightarrow> board \<Rightarrow> board" where
  "shiftOut dataPin clockPin val s = fold (shiftOut_bit dataPin clockPin val) [0 ..< 8] s"

section \<open>The bus driver\<close>

definition setAddress :: "int \<Rightarrow> bool \<Rightarrow> board \<Rightarrow> board" where
  "setAddress address outputEnable s =
     (let s = shiftOut SHIFT_DATA SHIFT_CLK
                (word_of_int (drop_bit 8 address OR (if outputEnable then 0x00 else 0x80))) s;
          s = shiftOut SHIFT_DATA SHIFT_CLK (word_of_int address) s;
          s = digitalWrite SHIFT_LATCH LOW s;
          s = digitalWrite SHIFT_LATCH HIGH s;
          s = digitalWrite SHIFT_LATCH LOW s
      in s)"

definition readEEPROM :: "int \<Rightarrow> board \<Rightarrow> byte \<times> board" where
  "readEEPROM address s =
     (let s = fold (\<lambda>pin. pinMode pin INPUT) data_pins s;
          s = setAddress address True s;
          data = fold (\<lambda>pin data. push_bit 1 data + of_bool (digitalRead pin s))
                   (rev data_pins) 0
      in (data, s))"

text \<open>The loop that drives the data pins: the low bit on the pin, then shift right.\<close>

fun drive_data :: "nat list \<Rightarrow> byte \<Rightarrow> board \<Rightarrow> board" where
  "drive_data [] data s = s"
| "drive_data (pin # pins) data s =
     drive_data pins (drop_bit 1 data) (digitalWrite pin (data AND 1 \<noteq> 0) s)"

definition writeEEPROM :: "int \<Rightarrow> byte \<Rightarrow> board \<Rightarrow> board" where
  "writeEEPROM address data s =
     (let s = setAddress address False s;
          s = fold (\<lambda>pin. pinMode pin OUTPUT) data_pins s;
          s = drive_data data_pins data s;
          s = digitalWrite WRITE_EN LOW s;
          s = digitalWrite WRITE_EN HIGH s
      in s)"


text \<open>
  \<^verbatim>\<open>printContents\<close> reads the first 256 cells, sixteen to a row. The model returns the
  rows (base address and the sixteen bytes) instead of the formatted text.
\<close>

definition read_row :: "int \<Rightarrow> board \<Rightarrow> byte list \<times> board" where
  "read_row base s =
     fold (\<lambda>offset (data, s). case readEEPROM (base + int offset) s of
                                  (b, s') \<Rightarrow> (data @ [b], s'))
       [0 ..< 16] ([], s)"

definition printContents :: "board \<Rightarrow> (int \<times> byte list) list \<times> board" where
  "printContents s =
     fold (\<lambda>k (rows, s). case read_row (16 * int k) s of
                             (data, s') \<Rightarrow> (rows @ [(16 * int k, data)], s'))
       [0 ..< 16] ([], s)"

section \<open>What all three sketches do first: pins, then erase\<close>

definition init_pins :: "board \<Rightarrow> board" where
  "init_pins s =
     (let s = pinMode SHIFT_DATA OUTPUT s;
          s = pinMode SHIFT_CLK OUTPUT s;
          s = pinMode SHIFT_LATCH OUTPUT s;
          s = digitalWrite WRITE_EN HIGH s;
          s = pinMode WRITE_EN OUTPUT s
      in s)"

function erase_loop :: "int \<Rightarrow> board \<Rightarrow> board" where
  "erase_loop address s =
     (if address \<le> 2047 then erase_loop (address + 1) (writeEEPROM address 0xff s) else s)"
  by pat_completeness auto
termination
  by (relation "measure (\<lambda>(address, s). nat (2048 - address))") auto

text \<open>
  The microcontroller after reset: every pin an input, every output latch low. The
  contents of the EEPROM and of the shift registers are whatever they were.
\<close>

definition power_on :: "(nat \<Rightarrow> byte) \<Rightarrow> 16 word \<Rightarrow> 16 word \<Rightarrow> board" where
  "power_on m sr lt =
     \<lparr>mode = (\<lambda>_. INPUT), level = (\<lambda>_. False), shift_reg = sr, latched = lt,
      mem = m, writes = []\<rparr>"

section \<open>\<^verbatim>\<open>control-rom.ino\<close>\<close>

text \<open>
  The time-step arguments are natural numbers: the sketches pass 0 and 3, and a negative
  shift count has no meaning in C.
\<close>

definition instr_address :: "byte \<Rightarrow> nat \<Rightarrow> nat \<Rightarrow> int" where
  "instr_address instruction t_start t =
     (let i_address = push_bit 6 (uint instruction);
          t_address = drop_bit (t + t_start) (0x20 :: int);
          t_address = NOT t_address;
          t_address = t_address AND 0x3F
      in i_address OR t_address)"

definition writeInstruction :: "byte \<Rightarrow> nat \<Rightarrow> byte list \<Rightarrow> board \<Rightarrow> board" where
  "writeInstruction instruction t_start ops s =
     fold (\<lambda>t. writeEEPROM (instr_address instruction t_start t) (ops ! t)) [0 ..< 3] s"

text \<open>The bank is chosen by \<^verbatim>\<open>ROM_SELECT\<close>, which the sketch defines as 1.\<close>

definition ROM_SELECT :: int where "ROM_SELECT = 1"

definition ROM_1_SELECT :: "int \<Rightarrow> bool" where "ROM_1_SELECT rs = (rs = 1)"
definition ROM_2_SELECT :: "int \<Rightarrow> bool" where "ROM_2_SELECT rs = (rs = 2)"

definition HLT :: "int \<Rightarrow> byte" where "HLT rs = 1 * of_bool (ROM_2_SELECT rs)"
definition MI :: "int \<Rightarrow> byte" where "MI rs = 2 * of_bool (ROM_2_SELECT rs)"
definition RI :: "int \<Rightarrow> byte" where "RI rs = 4 * of_bool (ROM_2_SELECT rs)"
definition RO :: "int \<Rightarrow> byte" where "RO rs = 8 * of_bool (ROM_2_SELECT rs)"
definition IO :: "int \<Rightarrow> byte" where "IO rs = 16 * of_bool (ROM_2_SELECT rs)"
definition II :: "int \<Rightarrow> byte" where "II rs = 32 * of_bool (ROM_2_SELECT rs)"
definition AI :: "int \<Rightarrow> byte" where "AI rs = 64 * of_bool (ROM_2_SELECT rs)"
definition AO :: "int \<Rightarrow> byte" where "AO rs = 128 * of_bool (ROM_1_SELECT rs)"

definition EO :: "int \<Rightarrow> byte" where "EO rs = 1 * of_bool (ROM_1_SELECT rs)"
definition SU :: "int \<Rightarrow> byte" where "SU rs = 2 * of_bool (ROM_1_SELECT rs)"
definition BI :: "int \<Rightarrow> byte" where "BI rs = 4 * of_bool (ROM_1_SELECT rs)"
definition OI :: "int \<Rightarrow> byte" where "OI rs = 8 * of_bool (ROM_1_SELECT rs)"
definition CE :: "int \<Rightarrow> byte" where "CE rs = 16 * of_bool (ROM_1_SELECT rs)"
definition CO :: "int \<Rightarrow> byte" where "CO rs = 32 * of_bool (ROM_1_SELECT rs)"
definition J :: "int \<Rightarrow> byte" where "J rs = 64 * of_bool (ROM_1_SELECT rs)"

definition NOOP :: byte where "NOOP = 0"

definition FETCH :: "int \<Rightarrow> byte list" where
  "FETCH rs = [CO rs OR MI rs, RO rs OR II rs, CE rs]"

definition LDA :: "int \<Rightarrow> byte list" where
  "LDA rs = [IO rs OR MI rs, RO rs OR AI rs, NOOP]"
definition ADD :: "int \<Rightarrow> byte list" where
  "ADD rs = [IO rs OR MI rs, RO rs OR BI rs, EO rs OR AI rs]"
definition SUB :: "int \<Rightarrow> byte list" where
  "SUB rs = [IO rs OR MI rs, RO rs OR BI rs, EO rs OR AI rs OR SU rs]"

definition LDI :: "int \<Rightarrow> byte list" where
  "LDI rs = [IO rs OR AI rs, NOOP, NOOP]"
definition STA :: "int \<Rightarrow> byte list" where
  "STA rs = [IO rs OR MI rs, AO rs OR RI rs, NOOP]"
definition INC :: "int \<Rightarrow> byte list" where
  "INC rs = [IO rs OR BI rs, EO rs OR AI rs, NOOP]"
definition DEC :: "int \<Rightarrow> byte list" where
  "DEC rs = [IO rs OR BI rs, EO rs OR AI rs OR SU rs, NOOP]"
definition JMP :: "int \<Rightarrow> byte list" where
  "JMP rs = [IO rs OR J rs, NOOP, NOOP]"
definition NOP :: "byte list" where
  "NOP = [NOOP, NOOP, NOOP]"

definition OUT :: "int \<Rightarrow> byte list" where
  "OUT rs = [AO rs OR OI rs, NOOP, NOOP]"
definition HALT :: "int \<Rightarrow> byte list" where
  "HALT rs = [HLT rs, NOOP, NOOP]"

function fetch_loop :: "int \<Rightarrow> byte \<Rightarrow> board \<Rightarrow> board" where
  "fetch_loop rs i s =
     (if i < 0x10 then fetch_loop rs (i + 1) (writeInstruction i 0 (FETCH rs) s) else s)"
  by pat_completeness auto
termination
proof (relation "measure (\<lambda>(rs, i, s). 16 - unat i)")
  show "wf (measure (\<lambda>(rs, i, s). 16 - unat i))"
    by simp
next
  fix rs :: int and i :: byte and s :: board
  assume "i < 0x10"
  then have "unat i < 16"
    by (simp add: word_less_nat_alt)
  then have "unat (i + 1) = unat i + 1"
    by (simp add: unat_word_ariths)
  note \<open>unat i < 16\<close> this
  then show "((rs, i + 1, writeInstruction i 0 (FETCH rs) s), (rs, i, s))
      \<in> measure (\<lambda>(rs, i, s). 16 - unat i)"
    by simp
qed

text \<open>The programming part of \<^verbatim>\<open>setup\<close>, after the erase and before the dump.\<close>

definition program :: "int \<Rightarrow> board \<Rightarrow> board" where
  "program rs s =
     (let s = fetch_loop rs 0 s;
          s = writeInstruction 0x0 3 (LDA rs) s;
          s = writeInstruction 0x1 3 (ADD rs) s;
          s = writeInstruction 0x2 3 (SUB rs) s;
          s = writeInstruction 0xE 3 (OUT rs) s;
          s = writeInstruction 0xF 3 (HALT rs) s
      in s)"

text \<open>\<^verbatim>\<open>setup\<close>; the name is a keyword of the prover, hence the suffix.\<close>

definition setup_sketch :: "int \<Rightarrow> board \<Rightarrow> (int \<times> byte list) list \<times> board" where
  "setup_sketch rs s =
     (let s = init_pins s;
          s = erase_loop 0 s;
          s = program rs s
      in printContents s)"


section \<open>The revision \<^verbatim>\<open>part_000\<close>\<close>

text \<open>
  Here the timing bits sit above the opcode, and the opcode is masked to four bits. The
  loop body assigns the masked value back to \<open>instruction\<close>, so the loop carries it.
\<close>

definition instr_address_p0 :: "byte \<Rightarrow> nat \<Rightarrow> nat \<Rightarrow> int" where
  "instr_address_p0 instruction t_start t =
     (let address = drop_bit (t_start + t) (0x80 :: int);
          address = NOT address;
          address = address AND 0x3F0;
          instruction = instruction AND 0x00F;
          address = address OR uint instruction
      in address)"

definition writeInstruction_p0 :: "byte \<Rightarrow> nat \<Rightarrow> byte list \<Rightarrow> board \<Rightarrow> board" where
  "writeInstruction_p0 instruction t_start ops s =
     snd (fold (\<lambda>t (instruction, s).
                 (instruction AND 0x00F,
                  writeEEPROM (instr_address_p0 instruction t_start t) (ops ! t) s))
            [0 ..< 3] (instruction, s))"

text \<open>J to AO on ROM 1, AI to HLT on ROM 2.\<close>

definition J_p0 :: "int \<Rightarrow> byte" where "J_p0 rs = 1 * of_bool (ROM_1_SELECT rs)"
definition CO_p0 :: "int \<Rightarrow> byte" where "CO_p0 rs = 2 * of_bool (ROM_1_SELECT rs)"
definition CE_p0 :: "int \<Rightarrow> byte" where "CE_p0 rs = 4 * of_bool (ROM_1_SELECT rs)"
definition OI_p0 :: "int \<Rightarrow> byte" where "OI_p0 rs = 8 * of_bool (ROM_1_SELECT rs)"
definition BI_p0 :: "int \<Rightarrow> byte" where "BI_p0 rs = 16 * of_bool (ROM_1_SELECT rs)"
definition SU_p0 :: "int \<Rightarrow> byte" where "SU_p0 rs = 32 * of_bool (ROM_1_SELECT rs)"
definition EO_p0 :: "int \<Rightarrow> byte" where "EO_p0 rs = 64 * of_bool (ROM_1_SELECT rs)"
definition AO_p0 :: "int \<Rightarrow> byte" where "AO_p0 rs = 128 * of_bool (ROM_1_SELECT rs)"

definition AI_p0 :: "int \<Rightarrow> byte" where "AI_p0 rs = 1 * of_bool (ROM_2_SELECT rs)"
definition II_p0 :: "int \<Rightarrow> byte" where "II_p0 rs = 2 * of_bool (ROM_2_SELECT rs)"
definition IO_p0 :: "int \<Rightarrow> byte" where "IO_p0 rs = 4 * of_bool (ROM_2_SELECT rs)"
definition RO_p0 :: "int \<Rightarrow> byte" where "RO_p0 rs = 8 * of_bool (ROM_2_SELECT rs)"
definition RI_p0 :: "int \<Rightarrow> byte" where "RI_p0 rs = 16 * of_bool (ROM_2_SELECT rs)"
definition MI_p0 :: "int \<Rightarrow> byte" where "MI_p0 rs = 32 * of_bool (ROM_2_SELECT rs)"
definition HLT_p0 :: "int \<Rightarrow> byte" where "HLT_p0 rs = 64 * of_bool (ROM_2_SELECT rs)"

definition FETCH_p0 :: "int \<Rightarrow> byte list" where
  "FETCH_p0 rs = [CO_p0 rs OR MI_p0 rs, RO_p0 rs OR II_p0 rs, CE_p0 rs]"
definition LDA_p0 :: "int \<Rightarrow> byte list" where
  "LDA_p0 rs = [IO_p0 rs OR MI_p0 rs, RO_p0 rs OR AI_p0 rs, NOOP]"
definition ADD_p0 :: "int \<Rightarrow> byte list" where
  "ADD_p0 rs = [IO_p0 rs OR MI_p0 rs, RO_p0 rs OR BI_p0 rs, EO_p0 rs OR AI_p0 rs]"
definition SUB_p0 :: "int \<Rightarrow> byte list" where
  "SUB_p0 rs = [IO_p0 rs OR MI_p0 rs, RO_p0 rs OR BI_p0 rs, EO_p0 rs OR AI_p0 rs OR SU_p0 rs]"
definition OUT_p0 :: "int \<Rightarrow> byte list" where
  "OUT_p0 rs = [AO_p0 rs OR OI_p0 rs, NOOP, NOOP]"
definition HALT_p0 :: "int \<Rightarrow> byte list" where
  "HALT_p0 rs = [HLT_p0 rs, NOOP, NOOP]"

function fetch_loop_p0 :: "int \<Rightarrow> byte \<Rightarrow> board \<Rightarrow> board" where
  "fetch_loop_p0 rs i s =
     (if i < 0x10 then fetch_loop_p0 rs (i + 1) (writeInstruction_p0 i 0 (FETCH_p0 rs) s)
      else s)"
  by pat_completeness auto
termination
proof (relation "measure (\<lambda>(rs, i, s). 16 - unat i)")
  show "wf (measure (\<lambda>(rs, i, s). 16 - unat i))"
    by simp
next
  fix rs :: int and i :: byte and s :: board
  assume "i < 0x10"
  then have "unat i < 16"
    by (simp add: word_less_nat_alt)
  then have "unat (i + 1) = unat i + 1"
    by (simp add: unat_word_ariths)
  note \<open>unat i < 16\<close> this
  then show "((rs, i + 1, writeInstruction_p0 i 0 (FETCH_p0 rs) s), (rs, i, s))
      \<in> measure (\<lambda>(rs, i, s). 16 - unat i)"
    by simp
qed

definition program_p0 :: "int \<Rightarrow> board \<Rightarrow> board" where
  "program_p0 rs s =
     (let s = fetch_loop_p0 rs 0 s;
          s = writeInstruction_p0 0x0 3 (LDA_p0 rs) s;
          s = writeInstruction_p0 0x1 3 (ADD_p0 rs) s;
          s = writeInstruction_p0 0x2 3 (SUB_p0 rs) s;
          s = writeInstruction_p0 0xE 3 (OUT_p0 rs) s;
          s = writeInstruction_p0 0xF 3 (HALT_p0 rs) s
      in s)"

definition setup_sketch_p0 :: "int \<Rightarrow> board \<Rightarrow> (int \<times> byte list) list \<times> board" where
  "setup_sketch_p0 rs s =
     (let s = init_pins s;
          s = erase_loop 0 s;
          s = program_p0 rs s
      in printContents s)"

section \<open>The revision \<^verbatim>\<open>part_001\<close>\<close>

text \<open>
  The earliest revision: for the first ROM only, the signal values written out, the
  opcode an \<^verbatim>\<open>int\<close> that is added to the timing bit, and the fetch steps written once, for
  opcode 0 (its header says the instruction bits are zeroed during the fetch steps).
\<close>

definition instr_address_p1 :: "int \<Rightarrow> nat \<Rightarrow> nat \<Rightarrow> int" where
  "instr_address_p1 instruction t_start t = drop_bit (t_start + t) (0x80 :: int) + instruction"

definition writeInstruction_p1 :: "int \<Rightarrow> nat \<Rightarrow> byte list \<Rightarrow> board \<Rightarrow> board" where
  "writeInstruction_p1 instruction t_start ops s =
     fold (\<lambda>t. writeEEPROM (instr_address_p1 instruction t_start t) (ops ! t)) [0 ..< 3] s"

definition J_p1 :: byte where "J_p1 = 1"
definition CO_p1 :: byte where "CO_p1 = 2"
definition CE_p1 :: byte where "CE_p1 = 4"
definition OI_p1 :: byte where "OI_p1 = 8"
definition BI_p1 :: byte where "BI_p1 = 16"
definition SU_p1 :: byte where "SU_p1 = 32"
definition EO_p1 :: byte where "EO_p1 = 64"
definition AO_p1 :: byte where "AO_p1 = 128"

definition AI_p1 :: byte where "AI_p1 = 0"
definition II_p1 :: byte where "II_p1 = 0"
definition IO_p1 :: byte where "IO_p1 = 0"
definition RO_p1 :: byte where "RO_p1 = 0"
definition RI_p1 :: byte where "RI_p1 = 0"
definition MI_p1 :: byte where "MI_p1 = 0"
definition HLT_p1 :: byte where "HLT_p1 = 0"

definition FETCH_p1 :: "byte list" where
  "FETCH_p1 = [CO_p1 + MI_p1, RO_p1 + II_p1, CE_p1]"
definition LDA_p1 :: "byte list" where
  "LDA_p1 = [IO_p1 + MI_p1, RO_p1 + AI_p1, NOOP]"
definition ADD_p1 :: "byte list" where
  "ADD_p1 = [IO_p1 + MI_p1, RO_p1 + BI_p1, EO_p1 + AI_p1]"
definition SUB_p1 :: "byte list" where
  "SUB_p1 = [IO_p1 + MI_p1, RO_p1 + BI_p1, EO_p1 + AI_p1 + SU_p1]"
definition OUT_p1 :: "byte list" where
  "OUT_p1 = [AO_p1 + OI_p1, NOOP, NOOP]"
definition HALT_p1 :: "byte list" where
  "HALT_p1 = [HLT_p1, NOOP, NOOP]"

definition program_p1 :: "board \<Rightarrow> board" where
  "program_p1 s =
     (let s = writeInstruction_p1 0x0 0 FETCH_p1 s;
          s = writeInstruction_p1 0x0 3 LDA_p1 s;
          s = writeInstruction_p1 0x1 3 ADD_p1 s;
          s = writeInstruction_p1 0x2 3 SUB_p1 s;
          s = writeInstruction_p1 0xE 3 OUT_p1 s;
          s = writeInstruction_p1 0xF 3 HALT_p1 s
      in s)"

definition setup_sketch_p1 :: "board \<Rightarrow> (int \<times> byte list) list \<times> board" where
  "setup_sketch_p1 s =
     (let s = init_pins s;
          s = erase_loop 0 s;
          s = program_p1 s
      in printContents s)"


section \<open>Vocabulary of the proofs\<close>

text \<open>
  What a clock pulse does to the shift stage, the word the two shifted bytes leave on the
  outputs, and the cell an address selects (the EEPROM sees eleven address lines).
\<close>

definition shift_in :: "bool \<Rightarrow> 16 word \<Rightarrow> 16 word" where
  "shift_in b r = push_bit 1 r OR of_bool b"

definition addr_word :: "int \<Rightarrow> bool \<Rightarrow> 16 word" where
  "addr_word address outputEnable =
     push_bit 8 (ucast (word_of_int
         (drop_bit 8 address OR (if outputEnable then 0x00 else 0x80)) :: byte))
       OR ucast (word_of_int address :: byte)"

definition cell :: "int \<Rightarrow> nat" where
  "cell address = nat (take_bit 11 address)"

text \<open>
  The conditions under which the driver works: the control pins are outputs, the shift
  clock rests low, write enable rests high. \<open>idle\<close> is the resting level of the two
  control lines that carry pulses.
\<close>

definition clk_ok :: "board \<Rightarrow> bool" where
  "clk_ok s \<longleftrightarrow> mode s SHIFT_CLK = OUTPUT \<and> \<not> level s SHIFT_CLK"

definition bus_ok :: "board \<Rightarrow> bool" where
  "bus_ok s \<longleftrightarrow> clk_ok s \<and> mode s SHIFT_LATCH = OUTPUT"

definition ready :: "board \<Rightarrow> bool" where
  "ready s \<longleftrightarrow> bus_ok s \<and> mode s WRITE_EN = OUTPUT \<and> level s WRITE_EN"

definition idle :: "board \<Rightarrow> bool" where
  "idle s \<longleftrightarrow> level s WRITE_EN = HIGH \<and> level s SHIFT_LATCH = LOW"

definition plain_pins :: "nat list \<Rightarrow> bool" where
  "plain_pins ps \<longleftrightarrow> SHIFT_CLK \<notin> set ps \<and> SHIFT_LATCH \<notin> set ps \<and> WRITE_EN \<notin> set ps"

text \<open>A sequence of writes, on the board and on the cells alone.\<close>

definition write_all :: "(int \<times> byte) list \<Rightarrow> board \<Rightarrow> board" where
  "write_all ws s = fold (\<lambda>(address, data). writeEEPROM address data) ws s"

definition store_all :: "(int \<times> byte) list \<Rightarrow> (nat \<Rightarrow> byte) \<Rightarrow> nat \<Rightarrow> byte" where
  "store_all ws m = fold (\<lambda>(address, data) m. m(cell address := data)) ws m"

definition logged :: "(int \<times> byte) list \<Rightarrow> (nat \<times> byte) list" where
  "logged ws = map (\<lambda>(address, data). (cell address, data)) ws"

text \<open>The writes of the erase loop and of one call of each \<^verbatim>\<open>writeInstruction\<close>.\<close>

definition erase_writes :: "(int \<times> byte) list" where
  "erase_writes = map (\<lambda>a. (int a, 0xff)) [0 ..< 2048]"

definition instr_writes :: "byte \<times> nat \<times> byte list \<Rightarrow> (int \<times> byte) list" where
  "instr_writes c = (case c of (instruction, t_start, ops) \<Rightarrow>
     map (\<lambda>t. (instr_address instruction t_start t, ops ! t)) [0 ..< 3])"

definition instr_writes_p0 :: "byte \<times> nat \<times> byte list \<Rightarrow> (int \<times> byte) list" where
  "instr_writes_p0 c = (case c of (instruction, t_start, ops) \<Rightarrow>
     map (\<lambda>t. (instr_address_p0 instruction t_start t, ops ! t)) [0 ..< 3])"

definition instr_writes_p1 :: "int \<times> nat \<times> byte list \<Rightarrow> (int \<times> byte) list" where
  "instr_writes_p1 c = (case c of (instruction, t_start, ops) \<Rightarrow>
     map (\<lambda>t. (instr_address_p1 instruction t_start t, ops ! t)) [0 ..< 3])"

text \<open>
  The calls of \<^verbatim>\<open>writeInstruction\<close> that each \<^verbatim>\<open>setup\<close> makes, in order: opcode, first
  time-step, the three steps.
\<close>

definition calls :: "int \<Rightarrow> (byte \<times> nat \<times> byte list) list" where
  "calls rs = map (\<lambda>i. (of_nat i, 0, FETCH rs)) [0 ..< 16] @
     [(0x0, 3, LDA rs), (0x1, 3, ADD rs), (0x2, 3, SUB rs), (0xE, 3, OUT rs), (0xF, 3, HALT rs)]"

definition calls_p0 :: "int \<Rightarrow> (byte \<times> nat \<times> byte list) list" where
  "calls_p0 rs = map (\<lambda>i. (of_nat i, 0, FETCH_p0 rs)) [0 ..< 16] @
     [(0x0, 3, LDA_p0 rs), (0x1, 3, ADD_p0 rs), (0x2, 3, SUB_p0 rs), (0xE, 3, OUT_p0 rs),
      (0xF, 3, HALT_p0 rs)]"

definition calls_p1 :: "(int \<times> nat \<times> byte list) list" where
  "calls_p1 =
     [(0x0, 0, FETCH_p1),
      (0x0, 3, LDA_p1), (0x1, 3, ADD_p1), (0x2, 3, SUB_p1), (0xE, 3, OUT_p1), (0xF, 3, HALT_p1)]"

text \<open>All the writes of the programming part, call after call.\<close>

definition program_writes :: "int \<Rightarrow> (int \<times> byte) list" where
  "program_writes rs = concat (map instr_writes (calls rs))"

definition program_writes_p0 :: "int \<Rightarrow> (int \<times> byte) list" where
  "program_writes_p0 rs = concat (map instr_writes_p0 (calls_p0 rs))"

definition program_writes_p1 :: "(int \<times> byte) list" where
  "program_writes_p1 = concat (map instr_writes_p1 calls_p1)"

text \<open>
  \<open>same_cells s s'\<close>: the board \<open>s'\<close> has the cells and the log of \<open>s\<close> and is ready for
  the next operation. \<open>consistent ws\<close>: writes of \<open>ws\<close> that go to the same cell carry the
  same byte.
\<close>

definition same_cells :: "board \<Rightarrow> board \<Rightarrow> bool" where
  "same_cells s s' \<longleftrightarrow> ready s' \<and> mem s' = mem s \<and> writes s' = writes s"

definition consistent :: "(int \<times> byte) list \<Rightarrow> bool" where
  "consistent ws \<longleftrightarrow>
     (\<forall>(a, d) \<in> set ws. \<forall>(a', d') \<in> set ws. cell a' = cell a \<longrightarrow> d' = d)"

text \<open>An EEPROM and shift registers that hold zeros, for the concrete runs below.\<close>

definition blank :: "nat \<Rightarrow> byte" where
  "blank a = 0"

text \<open>The recursive equations are unfolded by hand, never by the simplifier.\<close>

declare erase_loop.simps [simp del] fetch_loop.simps [simp del] fetch_loop_p0.simps [simp del]

section \<open>The driver, step by step\<close>

lemmas pins = SHIFT_DATA_def SHIFT_CLK_def SHIFT_LATCH_def EEPROM_D0_def EEPROM_D7_def
  WRITE_EN_def LOW_def HIGH_def

subsection \<open>Primitives, field by field\<close>

lemma pin_neq:
  "WRITE_EN \<noteq> SHIFT_CLK" "WRITE_EN \<noteq> SHIFT_LATCH" "WRITE_EN \<noteq> SHIFT_DATA"
  "SHIFT_LATCH \<noteq> SHIFT_CLK" "SHIFT_LATCH \<noteq> SHIFT_DATA" "SHIFT_CLK \<noteq> SHIFT_DATA"
  "SHIFT_LATCH \<noteq> WRITE_EN" "SHIFT_CLK \<noteq> WRITE_EN" "SHIFT_DATA \<noteq> WRITE_EN"
  "SHIFT_CLK \<noteq> SHIFT_LATCH" "SHIFT_DATA \<noteq> SHIFT_LATCH" "SHIFT_DATA \<noteq> SHIFT_CLK"
  by (simp_all add: pins)

lemma level_digitalWrite [simp]: "level (digitalWrite pin v s) = (level s)(pin := v)"
  by (simp add: digitalWrite_def write_cycle_def Let_def)

lemma mode_digitalWrite [simp]: "mode (digitalWrite pin v s) = mode s"
  by (simp add: digitalWrite_def write_cycle_def Let_def)

lemma digitalWrite_plain:
  "pin \<noteq> SHIFT_CLK \<Longrightarrow> pin \<noteq> SHIFT_LATCH \<Longrightarrow> pin \<noteq> WRITE_EN \<Longrightarrow>
   digitalWrite pin v s = s\<lparr>level := (level s)(pin := v)\<rparr>"
  by (simp add: digitalWrite_def Let_def)

lemma digitalWrite_low: "digitalWrite pin False s = s\<lparr>level := (level s)(pin := False)\<rparr>"
  by (simp add: digitalWrite_def Let_def)

lemma msb_test: "(val AND 2 ^ k \<noteq> 0) = bit (val::byte) k"
  using bit_iff_and_push_bit_not_eq_0 [of val k] by simp

lemma lsb_test: "(val AND 1 \<noteq> 0) = bit (val::byte) 0"
  using msb_test [of val 0] by simp

subsection \<open>Shifting a byte out\<close>

lemma shiftOut_bit_eq:
  assumes "clk_ok s"
  shows "shiftOut_bit SHIFT_DATA SHIFT_CLK val i s =
     s\<lparr>level := (level s)(SHIFT_DATA := bit val (7 - i), SHIFT_CLK := False),
       shift_reg := shift_in (bit val (7 - i)) (shift_reg s)\<rparr>"
  using assms
  by (simp add: shiftOut_bit_def digitalWrite_def Let_def pins msb_test shift_in_def clk_ok_def)

lemma fold_shiftOut_bit:
  assumes "clk_ok s"
  shows "fold (shiftOut_bit SHIFT_DATA SHIFT_CLK val) ks s =
     s\<lparr>level := (if ks = [] then level s
                  else (level s)(SHIFT_DATA := bit val (7 - last ks), SHIFT_CLK := False)),
       shift_reg := fold shift_in (map (\<lambda>k. bit val (7 - k)) ks) (shift_reg s)\<rparr>"
  using assms
proof (induction ks arbitrary: s)
  case Nil
  then show ?case by simp
next
  case (Cons k ks)
  let ?s1 = "shiftOut_bit SHIFT_DATA SHIFT_CLK val k s"
  have s1: "?s1 = s\<lparr>level := (level s)(SHIFT_DATA := bit val (7 - k), SHIFT_CLK := False),
       shift_reg := shift_in (bit val (7 - k)) (shift_reg s)\<rparr>"
    using Cons.prems by (rule shiftOut_bit_eq)
  have ok1: "clk_ok ?s1"
    using Cons.prems by (simp add: s1 clk_ok_def)
  have "fold (shiftOut_bit SHIFT_DATA SHIFT_CLK val) (k # ks) s
      = ?s1\<lparr>level := (if ks = [] then level ?s1
                  else (level ?s1)(SHIFT_DATA := bit val (7 - last ks), SHIFT_CLK := False)),
       shift_reg := fold shift_in (map (\<lambda>k. bit val (7 - k)) ks) (shift_reg ?s1)\<rparr>"
    using Cons.IH [OF ok1] by simp
  also have "\<dots> = s\<lparr>level := (if k # ks = [] then level s
                  else (level s)(SHIFT_DATA := bit val (7 - last (k # ks)), SHIFT_CLK := False)),
       shift_reg := fold shift_in (map (\<lambda>k. bit val (7 - k)) (k # ks)) (shift_reg s)\<rparr>"
    unfolding s1 by (cases "ks = []") (simp_all add: fun_eq_iff)
  finally show ?case .
qed

lemma fold_shift_in:
  "fold shift_in (map (bit (v::byte)) (rev [0..<n])) r = push_bit n r OR take_bit n (ucast v)"
proof (induction n arbitrary: r)
  case 0 show ?case by simp
next
  case (Suc n)
  have "fold shift_in (map (bit v) (rev [0..<Suc n])) r
      = fold shift_in (map (bit v) (rev [0..<n])) (shift_in (bit v n) r)"
    by simp
  also have "\<dots> = push_bit n (shift_in (bit v n) r) OR take_bit n (ucast v)"
    by (rule Suc)
  also have "\<dots> = push_bit (Suc n) r OR take_bit (Suc n) (ucast v)"
    unfolding shift_in_def
    by (rule bit_word_eqI) (auto simp: bit_simps less_Suc_eq)
  finally show ?case .
qed

lemma msb_first: "map (\<lambda>k. bit (v::byte) (7 - k)) [0..<8] = map (bit v) (rev [0..<8])"
  by (simp add: upt_rec numeral_eq_Suc)

lemma shiftOut_eq:
  assumes "clk_ok s"
  shows "shiftOut SHIFT_DATA SHIFT_CLK val s =
     s\<lparr>level := (level s)(SHIFT_DATA := bit val 0, SHIFT_CLK := False),
       shift_reg := push_bit 8 (shift_reg s) OR ucast val\<rparr>"
proof -
  have "take_bit 8 (ucast val :: 16 word) = ucast val"
    by (rule bit_word_eqI) (auto simp: bit_simps dest: bit_imp_le_length)
  then show ?thesis
    unfolding shiftOut_def fold_shiftOut_bit [OF assms] msb_first fold_shift_in
    by simp
qed


subsection \<open>Presenting an address\<close>

lemma two_bytes:
  "push_bit 8 (push_bit 8 (r :: 16 word) OR ucast (hi :: byte)) OR ucast (lo :: byte)
     = push_bit 8 (ucast hi) OR ucast lo"
  by (rule bit_word_eqI) (auto simp: bit_simps)

lemma setAddress_eq:
  assumes "bus_ok s"
  shows "setAddress address outputEnable s =
     s\<lparr>level := (level s)(SHIFT_DATA := bit (word_of_int address :: byte) 0,
                          SHIFT_CLK := False, SHIFT_LATCH := False),
       shift_reg := addr_word address outputEnable,
       latched := addr_word address outputEnable\<rparr>"
proof -
  let ?hi = "word_of_int (drop_bit 8 address OR (if outputEnable then 0x00 else 0x80)) :: byte"
  let ?s1 = "shiftOut SHIFT_DATA SHIFT_CLK ?hi s"
  have ok: "clk_ok s" and latch: "mode s SHIFT_LATCH = OUTPUT"
    using assms by (simp_all add: bus_ok_def)
  have s1: "?s1 = s\<lparr>level := (level s)(SHIFT_DATA := bit ?hi 0, SHIFT_CLK := False),
       shift_reg := push_bit 8 (shift_reg s) OR ucast ?hi\<rparr>"
    using ok by (rule shiftOut_eq)
  have ok1: "clk_ok ?s1"
    using ok by (simp add: s1 clk_ok_def)
  show ?thesis
    unfolding setAddress_def Let_def shiftOut_eq [OF ok1]
    unfolding s1 using latch
    by (simp add: digitalWrite_def Let_def pins two_bytes addr_word_def fun_eq_iff)
qed

lemma bit_128: "bit (128 :: int) k \<longleftrightarrow> k = 7"
  using bit_exp_iff [where ?'a = int, of 7 k] by simp

lemma addr_word_addr: "unat (take_bit 11 (addr_word address outputEnable)) = nat (take_bit 11 address)"
proof -
  have "take_bit 11 (addr_word address outputEnable) = word_of_int (take_bit 11 address)"
    unfolding addr_word_def
    by (rule bit_word_eqI) (auto simp: bit_simps bit_128)
  then show ?thesis
    by (simp add: unat_eq_nat_uint uint_word_of_int take_bit_eq_mod)
qed

lemma addr_word_oe: "bit (addr_word address outputEnable) 15 \<longleftrightarrow> \<not> outputEnable \<or> bit address 15"
  unfolding addr_word_def by (auto simp: bit_simps bit_128)


subsection \<open>The data pins\<close>

lemma fold_pinMode_OUTPUT:
  "fold (\<lambda>pin. pinMode pin OUTPUT) ps s =
     s\<lparr>mode := override_on (mode s) (\<lambda>_. OUTPUT) (set ps)\<rparr>"
proof (induction ps arbitrary: s)
  case Nil
  show ?case by simp
next
  case (Cons p ps)
  have "fold (\<lambda>pin. pinMode pin OUTPUT) (p # ps) s
      = fold (\<lambda>pin. pinMode pin OUTPUT) ps (pinMode p OUTPUT s)"
    by simp
  also have "\<dots> = (pinMode p OUTPUT s)
      \<lparr>mode := override_on (mode (pinMode p OUTPUT s)) (\<lambda>_. OUTPUT) (set ps)\<rparr>"
    by (rule Cons)
  also have "\<dots> = s\<lparr>mode := override_on (mode s) (\<lambda>_. OUTPUT) (set (p # ps))\<rparr>"
    by (simp add: pinMode_def fun_eq_iff override_on_def)
  finally show ?case .
qed

lemma fold_pinMode_INPUT:
  "fold (\<lambda>pin. pinMode pin INPUT) ps s =
     s\<lparr>mode := override_on (mode s) (\<lambda>_. INPUT) (set ps),
       level := override_on (level s) (\<lambda>_. False) (set ps)\<rparr>"
proof (induction ps arbitrary: s)
  case Nil
  show ?case by simp
next
  case (Cons p ps)
  have "fold (\<lambda>pin. pinMode pin INPUT) (p # ps) s
      = fold (\<lambda>pin. pinMode pin INPUT) ps (pinMode p INPUT s)"
    by simp
  also have "\<dots> = (pinMode p INPUT s)
      \<lparr>mode := override_on (mode (pinMode p INPUT s)) (\<lambda>_. INPUT) (set ps),
       level := override_on (level (pinMode p INPUT s)) (\<lambda>_. False) (set ps)\<rparr>"
    by (rule Cons)
  also have "\<dots> = s\<lparr>mode := override_on (mode s) (\<lambda>_. INPUT) (set (p # ps)),
       level := override_on (level s) (\<lambda>_. False) (set (p # ps))\<rparr>"
    by (simp add: pinMode_def fun_eq_iff override_on_def)
  finally show ?case .
qed

lemma drive_data_frame:
  "plain_pins ps \<Longrightarrow> drive_data ps d s = s\<lparr>level := level (drive_data ps d s)\<rparr>"
proof (induction ps arbitrary: d s)
  case Nil
  show ?case by simp
next
  case (Cons p ps)
  from Cons.prems have p: "p \<noteq> SHIFT_CLK" "p \<noteq> SHIFT_LATCH" "p \<noteq> WRITE_EN" and ps: "plain_pins ps"
    by (auto simp: plain_pins_def)
  show ?case
    using Cons.IH [OF ps, of "drop_bit 1 d" "s\<lparr>level := (level s)(p := d AND 1 \<noteq> 0)\<rparr>"]
    by (simp add: digitalWrite_plain [OF p])
qed

lemma drive_data_other:
  "p \<notin> set ps \<Longrightarrow> level (drive_data ps d s) p = level s p"
  by (induction ps arbitrary: d s) auto

lemma drive_data_bits:
  "distinct ps \<Longrightarrow> map (level (drive_data ps d s)) ps = map (bit d) [0 ..< length ps]"
proof (induction ps arbitrary: d s)
  case Nil
  show ?case by simp
next
  case (Cons p ps)
  from Cons.prems have p: "p \<notin> set ps" and ps: "distinct ps"
    by simp_all
  have "map (bit d) [0 ..< length (p # ps)] = bit d 0 # map (bit d \<circ> Suc) [0 ..< length ps]"
    by (simp add: upt_conv_Cons map_Suc_upt [symmetric] del: upt_Suc)
  also have "bit d \<circ> Suc = bit (drop_bit 1 d)"
    by (simp add: fun_eq_iff bit_simps)
  finally show ?case
    by (simp add: Cons.IH [OF ps] drive_data_other [OF p] lsb_test)
qed

lemma horner_byte: "horner_sum of_bool 2 (map (bit (d :: byte)) [0 ..< 8]) = d"
  by (simp only: horner_sum_bit_eq_take_bit) (simp add: take_bit_word_eq_self)


subsection \<open>One write\<close>

lemma data_pins_props:
  "plain_pins data_pins" "distinct data_pins" "length data_pins = 8"
  "WRITE_EN \<notin> set data_pins" "SHIFT_LATCH \<notin> set data_pins" "SHIFT_CLK \<notin> set data_pins"
  "SHIFT_DATA \<notin> set data_pins"
  by (simp_all add: data_pins_def plain_pins_def pins)

lemma map_fun_upd_other: "p \<notin> set ps \<Longrightarrow> map (f(p := v)) ps = map f ps"
  by (induction ps) auto

lemma writeEEPROM_eq:
  assumes "bus_ok s" and "mode s WRITE_EN = OUTPUT"
  shows "writeEEPROM address d s =
     s\<lparr>mode := override_on (mode s) (\<lambda>_. OUTPUT) (set data_pins),
       level := level (writeEEPROM address d s),
       shift_reg := addr_word address False,
       latched := addr_word address False,
       mem := (mem s)(cell address := d),
       writes := writes s @ [(cell address, d)]\<rparr>"
proof -
  define s1 where "s1 = setAddress address False s"
  define s2 where "s2 = fold (\<lambda>pin. pinMode pin OUTPUT) data_pins s1"
  define s3 where "s3 = drive_data data_pins d s2"
  define L1 where "L1 = level s1"
  define L3 where "L3 = level s3"
  define W where "W = addr_word address False"
  define M where "M = override_on (mode s) (\<lambda>_. OUTPUT) (set data_pins)"
  have w: "writeEEPROM address d s = digitalWrite WRITE_EN HIGH (digitalWrite WRITE_EN LOW s3)"
    by (simp add: writeEEPROM_def Let_def s1_def s2_def s3_def)
  have e1: "s1 = s\<lparr>level := L1, shift_reg := W, latched := W\<rparr>"
    unfolding L1_def s1_def W_def by (simp add: setAddress_eq [OF assms(1)])
  have e2: "s2 = s\<lparr>mode := M, level := L1, shift_reg := W, latched := W\<rparr>"
    unfolding s2_def fold_pinMode_OUTPUT M_def by (simp add: e1)
  have "s3 = s2\<lparr>level := L3\<rparr>"
    unfolding s3_def L3_def by (rule drive_data_frame) (rule data_pins_props)
  then have e3: "s3 = s\<lparr>mode := M, level := L3, shift_reg := W, latched := W\<rparr>"
    by (simp add: e2)
  have "map L3 data_pins = map (bit d) [0 ..< 8]"
    unfolding L3_def s3_def
    using drive_data_bits [OF data_pins_props(2), of d s2] by (simp add: data_pins_props)
  then have "map (L3(WRITE_EN := True)) data_pins = map (bit d) [0 ..< 8]"
    by (simp add: map_fun_upd_other data_pins_props)
  then have db: "horner_sum of_bool 2 (map (L3(WRITE_EN := True)) data_pins) = d"
    by (simp only: horner_byte)
  have m: "M WRITE_EN = OUTPUT"
    using assms(2) by (simp add: M_def data_pins_props)
  have oe: "bit W 15"
    by (simp add: W_def addr_word_oe)
  have a: "unat (take_bit 11 W) = cell address"
    by (simp add: W_def addr_word_addr cell_def)
  have "digitalWrite WRITE_EN HIGH (digitalWrite WRITE_EN LOW s3) =
     s\<lparr>mode := M, level := L3(WRITE_EN := True), shift_reg := W, latched := W,
       mem := (mem s)(cell address := d),
       writes := writes s @ [(cell address, d)]\<rparr>"
    unfolding e3 LOW_def HIGH_def digitalWrite_low
    by (simp add: digitalWrite_def Let_def m write_cycle_def oe_high_def oe eeprom_addr_def a
          data_bus_def db pin_neq)
  then show ?thesis
    unfolding w M_def W_def by simp
qed


lemma level_shiftOut_other:
  assumes "q \<noteq> dataPin" "q \<noteq> clockPin"
  shows "level (shiftOut dataPin clockPin val s) q = level s q"
proof -
  have "level (fold (shiftOut_bit dataPin clockPin val) ks s) q = level s q" for ks
    using assms by (induction ks arbitrary: s) (simp_all add: shiftOut_bit_def Let_def)
  then show ?thesis
    by (simp add: shiftOut_def)
qed

lemma level_setAddress_latch: "level (setAddress address outputEnable s) SHIFT_LATCH = False"
  by (simp add: setAddress_def Let_def LOW_def)

lemma level_setAddress_we:
  "level (setAddress address outputEnable s) WRITE_EN = level s WRITE_EN"
  by (simp add: setAddress_def Let_def level_shiftOut_other pin_neq)

lemma level_writeEEPROM:
  "level (writeEEPROM address d s) WRITE_EN" "\<not> level (writeEEPROM address d s) SHIFT_LATCH"
  by (simp_all add: writeEEPROM_def Let_def HIGH_def pin_neq
        drive_data_other data_pins_props fold_pinMode_OUTPUT level_setAddress_latch)

lemma level_writeEEPROM_clk:
  "bus_ok s \<Longrightarrow> \<not> level (writeEEPROM address d s) SHIFT_CLK"
  by (simp add: writeEEPROM_def Let_def HIGH_def pin_neq
        drive_data_other data_pins_props fold_pinMode_OUTPUT setAddress_eq)

lemma writeEEPROM_ready:
  assumes "ready s"
  shows "ready (writeEEPROM address d s)"
proof -
  from assms have b: "bus_ok s" and m: "mode s WRITE_EN = OUTPUT"
    by (simp_all add: ready_def)
  have "mode (writeEEPROM address d s) = override_on (mode s) (\<lambda>_. OUTPUT) (set data_pins)"
    by (subst writeEEPROM_eq [OF b m]) simp
  then show ?thesis
    using b m level_writeEEPROM [of address d s] level_writeEEPROM_clk [OF b, of address d]
    by (simp add: ready_def bus_ok_def clk_ok_def data_pins_props)
qed

lemma writeEEPROM_mem:
  assumes "ready s"
  shows "mem (writeEEPROM address d s)
       = (mem s)(cell address := d)"
    and "writes (writeEEPROM address d s) = writes s @ [(cell address, d)]"
proof -
  from assms have b: "bus_ok s" and m: "mode s WRITE_EN = OUTPUT"
    by (simp_all add: ready_def)
  show "mem (writeEEPROM address d s)
       = (mem s)(cell address := d)"
    by (subst writeEEPROM_eq [OF b m]) simp
  show "writes (writeEEPROM address d s) = writes s @ [(cell address, d)]"
    by (subst writeEEPROM_eq [OF b m]) simp
qed


subsection \<open>One read\<close>

lemma fold_read_bits:
  "fold (\<lambda>k acc. push_bit 1 acc + of_bool (bit (m :: byte) k)) (rev [0 ..< n]) (acc :: byte)
     = push_bit n acc OR take_bit n m"
proof (induction n arbitrary: acc)
  case 0
  show ?case by simp
next
  case (Suc n)
  have step: "push_bit 1 acc + of_bool (bit m n) = push_bit 1 acc OR of_bool (bit m n)"
    by (rule disjunctive_add_eq_or) (rule bit_word_eqI, auto simp: bit_simps bit_0)
  have "rev [0 ..< Suc n] = n # rev [0 ..< n]"
    by simp
  then have "fold (\<lambda>k acc. push_bit 1 acc + of_bool (bit m k)) (rev [0 ..< Suc n]) acc
      = fold (\<lambda>k acc. push_bit 1 acc + of_bool (bit m k)) (rev [0 ..< n])
          (push_bit 1 acc OR of_bool (bit m n))"
    by (simp only: fold_Cons o_apply step)
  also have "\<dots> = push_bit n (push_bit 1 acc OR of_bool (bit m n)) OR take_bit n m"
    by (rule Suc)
  also have "\<dots> = push_bit (Suc n) acc OR take_bit (Suc n) m"
    by (rule bit_word_eqI) (auto simp: bit_simps less_Suc_eq)
  finally show ?case .
qed

lemma read_pins: "map (\<lambda>pin. pin - EEPROM_D0) (rev data_pins) = rev [0 ..< 8]"
  by (simp add: data_pins_def pins upt_rec numeral_eq_Suc)

lemma readEEPROM_eq:
  assumes "ready s" and "0 \<le> address" and "address < 2048"
  shows "readEEPROM address s =
     (mem s (cell address),
      s\<lparr>mode := override_on (mode s) (\<lambda>_. INPUT) (set data_pins),
        level := level (snd (readEEPROM address s)),
        shift_reg := addr_word address True,
        latched := addr_word address True\<rparr>)"
proof -
  define s1 where "s1 = fold (\<lambda>pin. pinMode pin INPUT) data_pins s"
  define s2 where "s2 = setAddress address True s1"
  define L1 where "L1 = level s1"
  define L2 where "L2 = level s2"
  define W where "W = addr_word address True"
  define M where "M = override_on (mode s) (\<lambda>_. INPUT) (set data_pins)"
  from assms(1) have b: "bus_ok s" and we: "level s WRITE_EN"
    by (simp_all add: ready_def)
  have r: "readEEPROM address s =
      (fold (\<lambda>pin data. push_bit 1 data + of_bool (digitalRead pin s2)) (rev data_pins) 0, s2)"
    by (simp add: readEEPROM_def Let_def s1_def s2_def)
  have e1: "s1 = s\<lparr>mode := M, level := L1\<rparr>"
    unfolding L1_def s1_def M_def fold_pinMode_INPUT by simp
  have b1: "bus_ok s1"
    using b unfolding s1_def fold_pinMode_INPUT
    by (simp add: bus_ok_def clk_ok_def data_pins_props)
  have "s2 = s1\<lparr>level := L2, shift_reg := W, latched := W\<rparr>"
    unfolding L2_def s2_def W_def by (simp add: setAddress_eq [OF b1])
  then have e2: "s2 = s\<lparr>mode := M, level := L2, shift_reg := W, latched := W\<rparr>"
    by (simp add: e1)
  have we2: "L2 WRITE_EN"
    using we unfolding L2_def s2_def level_setAddress_we s1_def fold_pinMode_INPUT
    by (simp add: data_pins_props)
  have "\<not> bit address 15"
  proof -
    have "take_bit 11 address = address"
      using assms(2,3) by (simp add: take_bit_int_eq_self)
    then have "bit address 15 \<longleftrightarrow> bit (take_bit 11 address) 15"
      by simp
    then show ?thesis
      by (simp add: bit_simps)
  qed
  then have oe: "\<not> bit W 15"
    by (simp add: W_def addr_word_oe)
  have a: "unat (take_bit 11 W) = cell address"
    by (simp add: W_def addr_word_addr cell_def)
  have rd: "digitalRead pin s2 = bit (mem s (cell address)) (pin - EEPROM_D0)"
    if "pin \<in> set (rev data_pins)" for pin
  proof -
    from that have p: "pin \<in> set data_pins"
      by simp
    then have "EEPROM_D0 \<le> pin \<and> pin \<le> EEPROM_D7"
      by (auto simp: data_pins_def)
    moreover have "M pin = INPUT"
      using p by (simp add: M_def)
    ultimately show ?thesis
      by (simp add: digitalRead_def e2 oe_high_def oe we2 eeprom_addr_def a)
  qed
  have "fold (\<lambda>pin data. push_bit 1 data + of_bool (digitalRead pin s2)) (rev data_pins) 0
      = fold (\<lambda>pin data. push_bit 1 data
            + of_bool (bit (mem s (cell address)) (pin - EEPROM_D0))) (rev data_pins) 0"
    by (rule fold_cong) (simp_all add: rd)
  also have "\<dots> = fold (\<lambda>k data. push_bit 1 data + of_bool (bit (mem s (cell address)) k))
        (map (\<lambda>pin. pin - EEPROM_D0) (rev data_pins)) 0"
    by (simp add: fold_map comp_def)
  also have "\<dots> = mem s (cell address)"
    unfolding read_pins fold_read_bits by (simp add: take_bit_word_eq_self)
  finally have "readEEPROM address s = (mem s (cell address), s2)"
    by (simp only: r)
  then have A: "readEEPROM address s =
      (mem s (cell address), s\<lparr>mode := M, level := L2, shift_reg := W, latched := W\<rparr>)"
    by (simp only: e2 [symmetric])
  have B: "level (snd (readEEPROM address s)) = L2"
    by (simp only: r snd_conv L2_def)
  show ?thesis
    by (subst B) (rule A [unfolded M_def W_def])
qed

section \<open>The sequencer\<close>

subsection \<open>Reads and writes, as the sequencer sees them\<close>

lemma cell_small: "0 \<le> address \<Longrightarrow> address < 2048 \<Longrightarrow> cell address = nat address"
  by (simp add: cell_def take_bit_int_eq_self)

lemma cell_less: "cell address < 2048"
proof -
  have "take_bit 11 address < 2 ^ 11"
    by (rule take_bit_int_less_exp)
  then show ?thesis
    by (simp add: cell_def)
qed

lemma readEEPROM_value:
  assumes "ready s" and "0 \<le> address" and "address < 2048"
  shows "fst (readEEPROM address s) = mem s (cell address)"
  by (subst readEEPROM_eq [OF assms]) simp

lemma readEEPROM_frame:
  assumes "ready s" and "0 \<le> address" and "address < 2048"
  shows "mem (snd (readEEPROM address s)) = mem s"
    and "writes (snd (readEEPROM address s)) = writes s"
  by (subst readEEPROM_eq [OF assms], simp)+

lemma level_readEEPROM:
  "level (snd (readEEPROM address s)) WRITE_EN = level s WRITE_EN"
  "\<not> level (snd (readEEPROM address s)) SHIFT_LATCH"
  by (simp_all add: readEEPROM_def Let_def level_setAddress_we level_setAddress_latch
        fold_pinMode_INPUT data_pins_props)

lemma readEEPROM_ready:
  assumes "ready s" and "0 \<le> address" and "address < 2048"
  shows "ready (snd (readEEPROM address s))"
proof -
  from assms(1) have b: "bus_ok s"
    by (simp add: ready_def)
  have b1: "bus_ok (fold (\<lambda>pin. pinMode pin INPUT) data_pins s)"
    using b unfolding fold_pinMode_INPUT
    by (simp add: bus_ok_def clk_ok_def data_pins_props)
  have "\<not> level (snd (readEEPROM address s)) SHIFT_CLK"
    by (simp add: readEEPROM_def Let_def setAddress_eq [OF b1] pin_neq)
  moreover have "mode (snd (readEEPROM address s))
      = override_on (mode s) (\<lambda>_. INPUT) (set data_pins)"
    by (subst readEEPROM_eq [OF assms]) simp
  ultimately show ?thesis
    using assms(1) level_readEEPROM(1) [of address s]
    by (simp add: ready_def bus_ok_def clk_ok_def data_pins_props)
qed

lemma write_all_Nil [simp]: "write_all [] s = s"
  by (simp add: write_all_def)

lemma write_all_Cons [simp]:
  "write_all ((address, d) # ws) s = write_all ws (writeEEPROM address d s)"
  by (simp add: write_all_def)

lemma write_all_append: "write_all (ws @ ws') s = write_all ws' (write_all ws s)"
  by (simp add: write_all_def)

lemma store_all_append: "store_all (ws @ ws') m = store_all ws' (store_all ws m)"
  by (simp add: store_all_def)

lemma logged_append: "logged (ws @ ws') = logged ws @ logged ws'"
  by (simp add: logged_def)

lemma store_all_Nil [simp]: "store_all [] m = m"
  by (simp add: store_all_def)

lemma store_all_Cons [simp]:
  "store_all ((address, d) # ws) m = store_all ws (m(cell address := d))"
  by (simp add: store_all_def)

lemma logged_Nil [simp]: "logged [] = []"
  by (simp add: logged_def)

lemma logged_Cons [simp]: "logged ((address, d) # ws) = (cell address, d) # logged ws"
  by (simp add: logged_def)

lemma write_all_effect:
  assumes "ready s"
  shows "ready (write_all ws s) \<and> mem (write_all ws s) = store_all ws (mem s)
     \<and> writes (write_all ws s) = writes s @ logged ws"
  using assms
proof (induction ws arbitrary: s)
  case Nil
  then show ?case
    by simp
next
  case (Cons w ws)
  obtain address d where w: "w = (address, d)"
    by (cases w)
  have r: "ready (writeEEPROM address d s)"
    using Cons.prems by (rule writeEEPROM_ready)
  note e = writeEEPROM_mem [OF Cons.prems, of address d]
  from Cons.IH [OF r, unfolded e append_assoc append_Cons append_Nil]
  show ?case
    unfolding w write_all_Cons store_all_Cons logged_Cons .
qed

subsection \<open>Each iteration as a list of writes\<close>

lemma erase_loop_fold:
  "0 \<le> address \<Longrightarrow> address \<le> 2048 \<Longrightarrow>
   erase_loop address s = write_all (map (\<lambda>a. (int a, 0xff)) [nat address ..< 2048]) s"
proof (induction address s rule: erase_loop.induct)
  case (1 address s)
  show ?case
  proof (cases "address \<le> 2047")
    case True
    then have "nat address < 2048"
      using "1.prems" by simp
    then have "[nat address ..< 2048] = nat address # [Suc (nat address) ..< 2048]"
      by (rule upt_conv_Cons)
    also have "Suc (nat address) = nat (address + 1)"
      using "1.prems" by simp
    finally have "write_all (map (\<lambda>a. (int a, 0xff)) [nat address ..< 2048]) s
        = write_all (map (\<lambda>a. (int a, 0xff)) [nat (address + 1) ..< 2048])
            (writeEEPROM address 0xff s)"
      using "1.prems" by simp
    also have "\<dots> = erase_loop (address + 1) (writeEEPROM address 0xff s)"
      using "1.IH" [OF True] True "1.prems" by simp
    also have "\<dots> = erase_loop address s"
      using True by (subst (2) erase_loop.simps) simp
    finally show ?thesis ..
  next
    case False
    then have "nat address = 2048"
      using "1.prems" by simp
    then show ?thesis
      using False by (subst erase_loop.simps) simp
  qed
qed

lemma erase_loop_writes: "erase_loop 0 s = write_all erase_writes s"
  using erase_loop_fold [of 0 s] by (simp add: erase_writes_def)

lemma writeInstruction_writes:
  "writeInstruction instruction t_start ops s
     = write_all (instr_writes (instruction, t_start, ops)) s"
  by (simp add: writeInstruction_def instr_writes_def write_all_def fold_map comp_def)

lemma writeInstruction_p1_writes:
  "writeInstruction_p1 instruction t_start ops s
     = write_all (instr_writes_p1 (instruction, t_start, ops)) s"
  by (simp add: writeInstruction_p1_def instr_writes_p1_def write_all_def fold_map comp_def)

lemma instr_address_p0_masked:
  "instr_address_p0 (instruction AND 0x00F) t_start t = instr_address_p0 instruction t_start t"
  by (simp add: instr_address_p0_def Let_def and.assoc)

lemma writeInstruction_p0_writes:
  "writeInstruction_p0 instruction t_start ops s
     = write_all (instr_writes_p0 (instruction, t_start, ops)) s"
proof -
  have l: "[0 ..< 3] = [0, 1, 2]"
    by (simp add: upt_rec)
  show ?thesis
    unfolding writeInstruction_p0_def instr_writes_p0_def l
    by (simp add: instr_address_p0_masked)
qed


lemma byte_count:
  assumes "i < (0x10 :: byte)"
  shows "unat i < 16" and "unat (i + 1) = Suc (unat i)" and "of_nat (unat i) = i"
proof -
  show "unat i < 16"
    using assms by (simp add: word_less_nat_alt)
  then show "unat (i + 1) = Suc (unat i)"
    by (simp add: unat_word_ariths)
  show "of_nat (unat i) = i"
    by simp
qed

lemma fetch_loop_fold:
  "unat i \<le> 16 \<Longrightarrow>
   fetch_loop rs i s
     = write_all (concat (map (\<lambda>k. instr_writes (of_nat k, 0, FETCH rs)) [unat i ..< 16])) s"
proof (induction rs i s rule: fetch_loop.induct)
  case (1 rs i s)
  show ?case
  proof (cases "i < 0x10")
    case True
    note c = byte_count [OF True]
    have "[unat i ..< 16] = unat i # [unat (i + 1) ..< 16]"
      using c(1) by (simp add: upt_conv_Cons c(2))
    then have "write_all (concat (map (\<lambda>k. instr_writes (of_nat k, 0, FETCH rs)) [unat i ..< 16])) s
        = write_all (concat (map (\<lambda>k. instr_writes (of_nat k, 0, FETCH rs)) [unat (i + 1) ..< 16]))
            (writeInstruction i 0 (FETCH rs) s)"
      by (simp add: write_all_append writeInstruction_writes)
    also have "\<dots> = fetch_loop rs (i + 1) (writeInstruction i 0 (FETCH rs) s)"
      using "1.IH" [OF True] c by simp
    also have "\<dots> = fetch_loop rs i s"
      using True by (subst (2) fetch_loop.simps) simp
    finally show ?thesis ..
  next
    case False
    then have "16 \<le> unat i"
      by (simp add: word_less_nat_alt)
    then show ?thesis
      using False by (subst fetch_loop.simps) simp
  qed
qed

lemma fetch_loop_p0_fold:
  "unat i \<le> 16 \<Longrightarrow>
   fetch_loop_p0 rs i s
     = write_all (concat (map (\<lambda>k. instr_writes_p0 (of_nat k, 0, FETCH_p0 rs)) [unat i ..< 16])) s"
proof (induction rs i s rule: fetch_loop_p0.induct)
  case (1 rs i s)
  show ?case
  proof (cases "i < 0x10")
    case True
    note c = byte_count [OF True]
    have "[unat i ..< 16] = unat i # [unat (i + 1) ..< 16]"
      using c(1) by (simp add: upt_conv_Cons c(2))
    then have "write_all (concat (map (\<lambda>k. instr_writes_p0 (of_nat k, 0, FETCH_p0 rs))
            [unat i ..< 16])) s
        = write_all (concat (map (\<lambda>k. instr_writes_p0 (of_nat k, 0, FETCH_p0 rs))
            [unat (i + 1) ..< 16])) (writeInstruction_p0 i 0 (FETCH_p0 rs) s)"
      by (simp add: write_all_append writeInstruction_p0_writes)
    also have "\<dots> = fetch_loop_p0 rs (i + 1) (writeInstruction_p0 i 0 (FETCH_p0 rs) s)"
      using "1.IH" [OF True] c by simp
    also have "\<dots> = fetch_loop_p0 rs i s"
      using True by (subst (2) fetch_loop_p0.simps) simp
    finally show ?thesis ..
  next
    case False
    then have "16 \<le> unat i"
      by (simp add: word_less_nat_alt)
    then show ?thesis
      using False by (subst fetch_loop_p0.simps) simp
  qed
qed

lemma program_writes: "program rs s = write_all (program_writes rs) s"
  using fetch_loop_fold [of 0 rs s]
  by (simp add: program_def Let_def program_writes_def calls_def write_all_append
        writeInstruction_writes map_concat comp_def)

lemma program_p0_writes: "program_p0 rs s = write_all (program_writes_p0 rs) s"
  using fetch_loop_p0_fold [of 0 rs s]
  by (simp add: program_p0_def Let_def program_writes_p0_def calls_p0_def write_all_append
        writeInstruction_p0_writes comp_def)

lemma program_p1_writes: "program_p1 s = write_all program_writes_p1 s"
  by (simp add: program_p1_def Let_def program_writes_p1_def calls_p1_def write_all_append
        writeInstruction_p1_writes)


subsection \<open>The dump leaves the cells alone\<close>

lemma same_cells_refl: "ready s \<Longrightarrow> same_cells s s"
  by (simp add: same_cells_def)

lemma same_cells_read:
  assumes "same_cells s s'" and "0 \<le> address" and "address < 2048"
  shows "same_cells s (snd (readEEPROM address s'))"
proof -
  from assms(1) have r: "ready s'"
    by (simp add: same_cells_def)
  show ?thesis
    using assms(1) readEEPROM_ready [OF r assms(2,3)] readEEPROM_frame [OF r assms(2,3)]
    by (simp add: same_cells_def)
qed

lemma read_row_fold:
  assumes "same_cells s s'" and "0 \<le> base" and "\<forall>k \<in> set ks. base + int k < 2048"
  shows "same_cells s (snd (fold (\<lambda>offset (data, s). case readEEPROM (base + int offset) s of
                                  (b, s') \<Rightarrow> (data @ [b], s')) ks (acc, s')))"
  using assms
proof (induction ks arbitrary: acc s')
  case Nil
  then show ?case by simp
next
  case (Cons k ks)
  have "same_cells s (snd (readEEPROM (base + int k) s'))"
    using Cons.prems by (intro same_cells_read) simp_all
  then show ?case
    using Cons.IH Cons.prems(2,3) by (simp add: split_beta)
qed

lemma read_row_same:
  assumes "same_cells s s'" and "0 \<le> base" and "base + 16 \<le> 2048"
  shows "same_cells s (snd (read_row base s'))"
  unfolding read_row_def using assms by (intro read_row_fold) auto

lemma printContents_fold:
  assumes "same_cells s s'" and "\<forall>k \<in> set ks. k < 16"
  shows "same_cells s (snd (fold (\<lambda>k (rows, s). case read_row (16 * int k) s of
                             (data, s') \<Rightarrow> (rows @ [(16 * int k, data)], s')) ks (acc, s')))"
  using assms
proof (induction ks arbitrary: acc s')
  case Nil
  then show ?case by simp
next
  case (Cons k ks)
  have "same_cells s (snd (read_row (16 * int k) s'))"
    using Cons.prems by (intro read_row_same) simp_all
  then show ?case
    using Cons.IH Cons.prems(2) by (simp add: split_beta)
qed

lemma printContents_same: "ready s \<Longrightarrow> same_cells s (snd (printContents s))"
  unfolding printContents_def by (intro printContents_fold same_cells_refl) auto

subsection \<open>The whole of \<^verbatim>\<open>setup\<close>\<close>

lemma init_pins_power_on:
  "ready (init_pins (power_on m sr lt))"
  "mem (init_pins (power_on m sr lt)) = m"
  "writes (init_pins (power_on m sr lt)) = []"
  by (simp_all add: init_pins_def power_on_def Let_def pinMode_def digitalWrite_def
        ready_def bus_ok_def clk_ok_def pins)

lemma after_writes:
  assumes "s' = write_all ws (init_pins (power_on m sr lt))"
  shows "ready s'" and "mem s' = store_all ws m" and "writes s' = logged ws"
  using write_all_effect [OF init_pins_power_on(1), of ws m sr lt]
  by (simp_all add: assms init_pins_power_on)

lemma setup_sketch_cells:
  "same_cells (write_all (erase_writes @ program_writes rs) (init_pins (power_on m sr lt)))
     (snd (setup_sketch rs (power_on m sr lt)))"
  unfolding setup_sketch_def Let_def erase_loop_writes program_writes write_all_append
  by (intro printContents_same
        after_writes(1) [OF refl, where ws = "erase_writes @ program_writes rs", unfolded write_all_append])

lemma setup_sketch_p0_cells:
  "same_cells (write_all (erase_writes @ program_writes_p0 rs) (init_pins (power_on m sr lt)))
     (snd (setup_sketch_p0 rs (power_on m sr lt)))"
  unfolding setup_sketch_p0_def Let_def erase_loop_writes program_p0_writes write_all_append
  by (intro printContents_same
        after_writes(1) [OF refl, where ws = "erase_writes @ program_writes_p0 rs", unfolded write_all_append])

lemma setup_sketch_p1_cells:
  "same_cells (write_all (erase_writes @ program_writes_p1) (init_pins (power_on m sr lt)))
     (snd (setup_sketch_p1 (power_on m sr lt)))"
  unfolding setup_sketch_p1_def Let_def erase_loop_writes program_p1_writes write_all_append
  by (intro printContents_same
        after_writes(1) [OF refl, where ws = "erase_writes @ program_writes_p1", unfolded write_all_append])

lemma upt16: "[0 ..< 16] = [0, 1, 2, 3, 4, 5, 6, 7, 8, 9, 10, 11, 12, 13, 14, 15]"
  by (simp add: upt_rec)

lemma upt3: "[0 ..< 3] = [0, 1, 2]"
  by (simp add: upt_rec)

lemma program_addresses:
  "map (cell \<circ> fst) (program_writes rs) =
    [31, 47, 55, 95, 111, 119, 159, 175, 183, 223, 239, 247, 287, 303, 311, 351, 367, 375,
     415, 431, 439, 479, 495, 503, 543, 559, 567, 607, 623, 631, 671, 687, 695, 735, 751, 759,
     799, 815, 823, 863, 879, 887, 927, 943, 951, 991, 1007, 1015,
     59, 61, 62, 123, 125, 126, 187, 189, 190, 955, 957, 958, 1019, 1021, 1022]"
  by (simp add: program_writes_def calls_def instr_writes_def upt16 upt3 instr_address_def Let_def
      cell_small)

lemma program_p1_log:
  "logged program_writes_p1 =
    [(128, 2), (64, 0), (32, 4), (16, 0), (8, 0), (4, 0), (17, 0), (9, 16), (5, 64),
     (18, 0), (10, 16), (6, 96), (30, 136), (22, 0), (18, 0), (31, 0), (23, 0), (19, 0)]"
  by (simp add: program_writes_p1_def calls_p1_def instr_writes_p1_def upt3 instr_address_p1_def
      cell_small logged_def FETCH_p1_def LDA_p1_def ADD_p1_def SUB_p1_def OUT_p1_def HALT_p1_def
      J_p1_def CO_p1_def CE_p1_def OI_p1_def BI_p1_def SU_p1_def EO_p1_def AO_p1_def
      AI_p1_def II_p1_def IO_p1_def RO_p1_def RI_p1_def MI_p1_def HLT_p1_def NOOP_def)


subsection \<open>Cells after a list of writes\<close>

lemma store_all_frame:
  "x \<notin> (cell \<circ> fst) ` set ws \<Longrightarrow> store_all ws m x = m x"
proof (induction ws arbitrary: m)
  case Nil
  show ?case by simp
next
  case (Cons w ws)
  obtain a d where w: "w = (a, d)"
    by (cases w)
  from Cons.prems have "x \<noteq> cell a" and "x \<notin> (cell \<circ> fst) ` set ws"
    by (auto simp: w)
  then show ?case
    by (simp add: w Cons.IH)
qed

lemma store_all_agree:
  assumes "x \<in> (cell \<circ> fst) ` set ws" and "\<forall>(a, d') \<in> set ws. cell a = x \<longrightarrow> d' = d"
  shows "store_all ws m x = d"
  using assms
proof (induction ws arbitrary: m)
  case Nil
  then show ?case by simp
next
  case (Cons w ws)
  obtain a' d' where w: "w = (a', d')"
    by (cases w)
  show ?case
  proof (cases "x \<in> (cell \<circ> fst) ` set ws")
    case True
    then show ?thesis
      using Cons.prems(2) by (simp add: w Cons.IH)
  next
    case False
    then have "cell a' = x"
      using Cons.prems(1) by (simp add: w)
    then have "d' = d"
      using Cons.prems(2) by (simp add: w)
    then show ?thesis
      using False \<open>cell a' = x\<close> by (simp add: w store_all_frame)
  qed
qed

lemma store_all_consistent:
  assumes "consistent ws" and "(a, d) \<in> set ws"
  shows "store_all ws m (cell a) = d"
proof (rule store_all_agree)
  show "cell a \<in> (cell \<circ> fst) ` set ws"
    using assms(2) by force
  show "\<forall>(a', d') \<in> set ws. cell a' = cell a \<longrightarrow> d' = d"
    using assms unfolding consistent_def by blast
qed

lemma distinct_consistent:
  assumes "distinct (map (cell \<circ> fst) ws)"
  shows "consistent ws"
proof -
  have "d' = d" if "(a, d) \<in> set ws" "(a', d') \<in> set ws" "cell a' = cell a" for a d a' d'
  proof -
    have "inj_on (cell \<circ> fst) (set ws)"
      using assms by (simp add: distinct_map)
    then have "(a', d') = (a, d)"
      using that by (intro inj_onD [of "cell \<circ> fst" "set ws"]) simp_all
    then show ?thesis by simp
  qed
  then show ?thesis
    unfolding consistent_def by blast
qed

lemma store_all_erase: "x < 2048 \<Longrightarrow> store_all erase_writes m x = 0xff"
proof -
  have "store_all (map (\<lambda>a. (int a, 0xff)) [0 ..< n]) m x = (if x < n then 0xff else m x)"
    if "n \<le> 2048" for n
    using that
  proof (induction n)
    case 0
    show ?case by simp
  next
    case (Suc n)
    then have "cell (int n) = n"
      by (simp add: cell_small)
    then show ?case
      using Suc by (simp add: store_all_append)
  qed
  from this [of 2048] show "x < 2048 \<Longrightarrow> store_all erase_writes m x = 0xff"
    by (simp add: erase_writes_def)
qed

lemma logged_erase: "logged erase_writes = map (\<lambda>a. (a, 0xff)) [0 ..< 2048]"
  by (simp add: logged_def erase_writes_def cell_small comp_def)

section \<open>The claims\<close>

subsection \<open>Final state of each sketch\<close>

lemma final_state:
  assumes "same_cells (write_all (erase_writes @ ws) (init_pins (power_on m sr lt))) s"
  shows "ready s"
    and "mem s = store_all ws (store_all erase_writes m)"
    and "writes s = logged erase_writes @ logged ws"
  using assms after_writes [OF refl, of "erase_writes @ ws" m sr lt]
  by (simp_all add: same_cells_def store_all_append logged_append)

lemmas final = final_state [OF setup_sketch_cells]
lemmas final_p0 = final_state [OF setup_sketch_p0_cells]
lemmas final_p1 = final_state [OF setup_sketch_p1_cells]

text \<open>
  C10. Every operation of the bus driver leaves write enable high and the latch line
  low. The pin set-up does, from the reset state of the microcontroller. A write does,
  from any state. \<^verbatim>\<open>setAddress\<close> and a read end with the latch line low and never touch
  write enable, which therefore stays high.
\<close>

theorem control_lines_at_rest:
  "idle (init_pins (power_on m sr lt))
   \<and> idle (writeEEPROM address d s)
   \<and> level (setAddress address outputEnable s) SHIFT_LATCH = LOW
   \<and> level (setAddress address outputEnable s) WRITE_EN = level s WRITE_EN
   \<and> level (snd (readEEPROM address s)) SHIFT_LATCH = LOW
   \<and> level (snd (readEEPROM address s)) WRITE_EN = level s WRITE_EN
   \<and> (idle s \<longrightarrow> idle (setAddress address outputEnable s) \<and> idle (snd (readEEPROM address s)))"
proof -
  have "idle (init_pins (power_on m sr lt))"
    by (simp add: idle_def init_pins_def power_on_def Let_def pinMode_def pins)
  moreover have "idle (writeEEPROM address d s)"
    by (simp add: idle_def level_writeEEPROM HIGH_def LOW_def)
  moreover have "level (setAddress address outputEnable s) SHIFT_LATCH = LOW"
    and "level (setAddress address outputEnable s) WRITE_EN = level s WRITE_EN"
    by (simp_all add: level_setAddress_we level_setAddress_latch LOW_def)
  moreover have "level (snd (readEEPROM address s)) SHIFT_LATCH = LOW"
    and "level (snd (readEEPROM address s)) WRITE_EN = level s WRITE_EN"
    by (simp_all add: level_readEEPROM LOW_def)
  ultimately show ?thesis
    by (simp add: idle_def)
qed

theorem control_lines_at_rest_witness:
  "idle (init_pins (power_on blank 0 0))
   \<and> idle (setAddress 5 True (init_pins (power_on blank 0 0)))
   \<and> idle (snd (readEEPROM 5 (init_pins (power_on blank 0 0))))"
  using control_lines_at_rest [of blank 0 0 5 0 "init_pins (power_on blank 0 0)" True]
  by blast

lemmas signals =
  ROM_1_SELECT_def ROM_2_SELECT_def
  HLT_def MI_def RI_def RO_def IO_def II_def AI_def AO_def
  EO_def SU_def BI_def OI_def CE_def CO_def J_def NOOP_def

lemmas signals_p0 =
  ROM_1_SELECT_def ROM_2_SELECT_def
  J_p0_def CO_p0_def CE_p0_def OI_p0_def BI_p0_def SU_p0_def EO_p0_def AO_p0_def
  AI_p0_def II_p0_def IO_p0_def RO_p0_def RI_p0_def MI_p0_def HLT_p0_def NOOP_def

lemmas signals_p1 =
  J_p1_def CO_p1_def CE_p1_def OI_p1_def BI_p1_def SU_p1_def EO_p1_def AO_p1_def
  AI_p1_def II_p1_def IO_p1_def RO_p1_def RI_p1_def MI_p1_def HLT_p1_def NOOP_def

lemmas tables = FETCH_def LDA_def ADD_def SUB_def LDI_def STA_def INC_def DEC_def JMP_def
  NOP_def OUT_def HALT_def

lemmas tables_p0 = FETCH_p0_def LDA_p0_def ADD_p0_def SUB_p0_def OUT_p0_def HALT_p0_def

lemmas tables_p1 = FETCH_p1_def LDA_p1_def ADD_p1_def SUB_p1_def OUT_p1_def HALT_p1_def

text \<open>
  C6. In \<^verbatim>\<open>control-rom.ino\<close> and in \<^verbatim>\<open>part_000\<close>, a build for ROM 1 makes every signal
  constant of ROM 2 zero and gives the signals of ROM 1 eight different bits; a build for
  ROM 2 makes every signal constant of ROM 1 zero and gives the signals of ROM 2 seven
  different bits. \<^verbatim>\<open>part_001\<close> is written for ROM 1 alone, with the signals of ROM 2
  written as zero. The steps of every table are then built from the selected bank only.
\<close>

theorem bank_isolation:
  "[HLT 1, MI 1, RI 1, RO 1, IO 1, II 1, AI 1] = [0, 0, 0, 0, 0, 0, 0]
   \<and> [EO 1, SU 1, BI 1, OI 1, CE 1, CO 1, J 1, AO 1] = [1, 2, 4, 8, 16, 32, 64, 128]
   \<and> [EO 2, SU 2, BI 2, OI 2, CE 2, CO 2, J 2, AO 2] = [0, 0, 0, 0, 0, 0, 0, 0]
   \<and> [HLT 2, MI 2, RI 2, RO 2, IO 2, II 2, AI 2] = [1, 2, 4, 8, 16, 32, 64]
   \<and> [AI_p0 1, II_p0 1, IO_p0 1, RO_p0 1, RI_p0 1, MI_p0 1, HLT_p0 1] = [0, 0, 0, 0, 0, 0, 0]
   \<and> [J_p0 1, CO_p0 1, CE_p0 1, OI_p0 1, BI_p0 1, SU_p0 1, EO_p0 1, AO_p0 1]
       = [1, 2, 4, 8, 16, 32, 64, 128]
   \<and> [J_p0 2, CO_p0 2, CE_p0 2, OI_p0 2, BI_p0 2, SU_p0 2, EO_p0 2, AO_p0 2]
       = [0, 0, 0, 0, 0, 0, 0, 0]
   \<and> [AI_p0 2, II_p0 2, IO_p0 2, RO_p0 2, RI_p0 2, MI_p0 2, HLT_p0 2] = [1, 2, 4, 8, 16, 32, 64]
   \<and> [AI_p1, II_p1, IO_p1, RO_p1, RI_p1, MI_p1, HLT_p1] = [0, 0, 0, 0, 0, 0, 0]
   \<and> [J_p1, CO_p1, CE_p1, OI_p1, BI_p1, SU_p1, EO_p1, AO_p1] = [1, 2, 4, 8, 16, 32, 64, 128]
   \<and> [FETCH 1, LDA 1, ADD 1, SUB 1, OUT 1, HALT 1]
       = [[CO 1, 0, CE 1], [0, 0, 0], [0, BI 1, EO 1], [0, BI 1, EO 1 OR SU 1],
          [AO 1 OR OI 1, 0, 0], [0, 0, 0]]
   \<and> [FETCH 2, LDA 2, ADD 2, SUB 2, OUT 2, HALT 2]
       = [[MI 2, RO 2 OR II 2, 0], [IO 2 OR MI 2, RO 2 OR AI 2, 0], [IO 2 OR MI 2, RO 2, AI 2],
          [IO 2 OR MI 2, RO 2, AI 2], [0, 0, 0], [HLT 2, 0, 0]]
   \<and> [FETCH_p0 1, LDA_p0 1, ADD_p0 1, SUB_p0 1, OUT_p0 1, HALT_p0 1]
       = [[CO_p0 1, 0, CE_p0 1], [0, 0, 0], [0, BI_p0 1, EO_p0 1], [0, BI_p0 1, EO_p0 1 OR SU_p0 1],
          [AO_p0 1 OR OI_p0 1, 0, 0], [0, 0, 0]]
   \<and> [FETCH_p0 2, LDA_p0 2, ADD_p0 2, SUB_p0 2, OUT_p0 2, HALT_p0 2]
       = [[MI_p0 2, RO_p0 2 OR II_p0 2, 0], [IO_p0 2 OR MI_p0 2, RO_p0 2 OR AI_p0 2, 0],
          [IO_p0 2 OR MI_p0 2, RO_p0 2, AI_p0 2], [IO_p0 2 OR MI_p0 2, RO_p0 2, AI_p0 2],
          [0, 0, 0], [HLT_p0 2, 0, 0]]
   \<and> [FETCH_p1, LDA_p1, ADD_p1, SUB_p1, OUT_p1, HALT_p1]
       = [[CO_p1, 0, CE_p1], [0, 0, 0], [0, BI_p1, EO_p1], [0, BI_p1, EO_p1 + SU_p1],
          [AO_p1 + OI_p1, 0, 0], [0, 0, 0]]"
  by (simp add: signals signals_p0 signals_p1 tables tables_p0 tables_p1)

subsection \<open>The address fields\<close>

lemma mask4: "(15 :: byte) = mask 4" and mask6: "(63 :: int) = mask 6"
  by (simp_all add: mask_eq_exp_minus_1)

lemma low_nibble_iff: "(w :: byte) AND 0xF = w \<longleftrightarrow> w < 0x10"
proof
  assume "w AND 0xF = w"
  then have "w = w AND mask 4"
    by (simp add: mask4)
  also have "\<dots> < 2 ^ 4"
    by (rule and_mask_less_size) (simp add: word_size)
  finally show "w < 0x10"
    by simp
next
  assume "w < 0x10"
  then have "w < 2 ^ 4"
    by simp
  then have "w AND mask 4 = w"
    by (rule less_mask_eq)
  then show "w AND 0xF = w"
    by (simp add: mask4)
qed

lemma opcode_field: "drop_bit 6 (instr_address i ts t) = uint i"
  unfolding instr_address_def Let_def mask6
  by (rule bit_eqI) (simp add: bit_simps)

lemma timing_field:
  "take_bit 6 (instr_address i ts t) = NOT (drop_bit (t + ts) 0x20) AND 0x3F"
  unfolding instr_address_def Let_def mask6
  by (rule bit_eqI) (auto simp: bit_simps)

lemma bit_1008: "bit (1008 :: int) n \<longleftrightarrow> 4 \<le> n \<and> n < 10"
proof -
  have "(1008 :: int) = push_bit 4 (mask 6)"
    by (simp add: mask_eq_exp_minus_1)
  then have "bit (1008 :: int) n \<longleftrightarrow> bit (push_bit 4 (mask 6 :: int)) n"
    by (simp only:)
  then show ?thesis
    by (auto simp: bit_simps)
qed

lemma opcode_field_p0: "take_bit 4 (instr_address_p0 i ts t) = uint (i AND 0xF)"
  unfolding instr_address_p0_def Let_def mask4
  by (rule bit_eqI) (auto simp: bit_simps bit_1008)

lemma timing_field_p0:
  "drop_bit 4 (instr_address_p0 i ts t) = drop_bit 4 (NOT (drop_bit (ts + t) 0x80) AND 0x3F0)"
  unfolding instr_address_p0_def Let_def mask4
  by (rule bit_eqI) (auto simp: bit_simps bit_1008)

lemma layout_p0_ten_bits: "0 \<le> instr_address_p0 i ts t \<and> instr_address_p0 i ts t < 1024"
proof -
  have "take_bit 10 (instr_address_p0 i ts t) = instr_address_p0 i ts t"
    unfolding instr_address_p0_def Let_def mask4
    by (rule bit_eqI) (auto simp: bit_simps bit_1008)
  then show ?thesis
    using take_bit_int_less_exp [of 10 "instr_address_p0 i ts t"]
      take_bit_nonnegative [of 10 "instr_address_p0 i ts t"]
    by simp
qed

subsection \<open>What the programming part writes\<close>

lemma program_int_addresses:
  "map fst (program_writes rs) =
    [31, 47, 55, 95, 111, 119, 159, 175, 183, 223, 239, 247, 287, 303, 311, 351, 367, 375,
     415, 431, 439, 479, 495, 503, 543, 559, 567, 607, 623, 631, 671, 687, 695, 735, 751, 759,
     799, 815, 823, 863, 879, 887, 927, 943, 951, 991, 1007, 1015,
     59, 61, 62, 123, 125, 126, 187, 189, 190, 955, 957, 958, 1019, 1021, 1022]"
  by (simp add: program_writes_def calls_def instr_writes_def upt16 upt3 instr_address_def Let_def)

lemma program_p1_int_addresses:
  "map fst program_writes_p1 =
    [128, 64, 32, 16, 8, 4, 17, 9, 5, 18, 10, 6, 30, 22, 18, 31, 23, 19]"
  by (simp add: program_writes_p1_def calls_p1_def instr_writes_p1_def upt3 instr_address_p1_def)

lemma program_p1_addresses:
  "map (cell \<circ> fst) program_writes_p1 =
    [128, 64, 32, 16, 8, 4, 17, 9, 5, 18, 10, 6, 30, 22, 18, 31, 23, 19]"
  by (simp add: program_writes_p1_def calls_p1_def instr_writes_p1_def upt3 instr_address_p1_def
      cell_small)

lemma program_in_range:
  assumes "(a, d) \<in> set (program_writes rs)"
  shows "0 \<le> a \<and> a < 2048"
proof -
  from assms have "a \<in> set (map fst (program_writes rs))"
    by force
  then show ?thesis
    unfolding program_int_addresses by auto
qed

lemma program_p1_in_range:
  assumes "(a, d) \<in> set program_writes_p1"
  shows "0 \<le> a \<and> a < 2048"
proof -
  from assms have "a \<in> set (map fst program_writes_p1)"
    by force
  then show ?thesis
    unfolding program_p1_int_addresses by auto
qed

lemma program_consistent: "consistent (program_writes rs)"
  by (rule distinct_consistent) (simp add: program_addresses)

lemma program_p1_consistent: "consistent program_writes_p1"
proof -
  have "d' = d"
    if "(a, d) \<in> set program_writes_p1" "(a', d') \<in> set program_writes_p1" "cell a' = cell a"
    for a d a' d'
  proof -
    from that have "(cell a, d) \<in> set (logged program_writes_p1)"
      and "(cell a, d') \<in> set (logged program_writes_p1)"
      by (force simp: logged_def)+
    then show ?thesis
      unfolding program_p1_log by auto
  qed
  then show ?thesis
    unfolding consistent_def by blast
qed

lemma call_writes:
  assumes "(i, ts, ops) \<in> set (calls rs)" and "t < 3"
  shows "(instr_address i ts t, ops ! t) \<in> set (program_writes rs)"
proof -
  have "(instr_address i ts t, ops ! t) \<in> set (instr_writes (i, ts, ops))"
    using assms(2) by (simp add: instr_writes_def)
  then show ?thesis
    using assms(1) unfolding program_writes_def by auto
qed

lemma call_p1_writes:
  assumes "(i, ts, ops) \<in> set calls_p1" and "t < 3"
  shows "(instr_address_p1 i ts t, ops ! t) \<in> set program_writes_p1"
proof -
  have "(instr_address_p1 i ts t, ops ! t) \<in> set (instr_writes_p1 (i, ts, ops))"
    using assms(2) by (simp add: instr_writes_p1_def)
  then show ?thesis
    using assms(1) unfolding program_writes_p1_def by auto
qed

lemma readback:
  assumes "same_cells (write_all (erase_writes @ ws) (init_pins (power_on m sr lt))) s"
    and "consistent ws" and "(a, d) \<in> set ws" and "0 \<le> a \<and> a < 2048"
  shows "fst (readEEPROM a s) = d"
proof -
  note f = final_state [OF assms(1)]
  have "fst (readEEPROM a s) = mem s (cell a)"
    using f(1) assms(4) by (intro readEEPROM_value) simp_all
  also have "\<dots> = d"
    unfolding f(2) using assms(2,3) by (rule store_all_consistent)
  finally show ?thesis .
qed

text \<open>
  The round trip in two of the three sketches. After the whole of \<^verbatim>\<open>setup\<close>, for every
  call of \<^verbatim>\<open>writeInstruction\<close> the sketch makes (opcode, first time-step, steps) and
  each of its three steps, a read at the address computed for that step returns the step:
  in \<^verbatim>\<open>control-rom.ino\<close>, for either bank, and in \<^verbatim>\<open>part_001\<close>. It fails in
  \<^verbatim>\<open>part_000\<close>, as shown further down.
\<close>

lemma readback_returns_microstep:
  "(\<forall>(i, ts, ops) \<in> set (calls rs). \<forall>t < 3.
      fst (readEEPROM (instr_address i ts t) (snd (setup_sketch rs (power_on m sr lt))))
        = ops ! t)
   \<and> (\<forall>(i, ts, ops) \<in> set calls_p1. \<forall>t < 3.
      fst (readEEPROM (instr_address_p1 i ts t) (snd (setup_sketch_p1 (power_on m sr lt))))
        = ops ! t)"
proof -
  have "fst (readEEPROM (instr_address i ts t) (snd (setup_sketch rs (power_on m sr lt))))
      = ops ! t" if "(i, ts, ops) \<in> set (calls rs)" "t < 3" for i ts ops t
    using setup_sketch_cells program_consistent call_writes [OF that]
      program_in_range [OF call_writes [OF that]]
    by (rule readback)
  moreover have "fst (readEEPROM (instr_address_p1 i ts t)
      (snd (setup_sketch_p1 (power_on m sr lt)))) = ops ! t"
    if "(i, ts, ops) \<in> set calls_p1" "t < 3" for i ts ops t
    using setup_sketch_p1_cells program_p1_consistent call_p1_writes [OF that]
      program_p1_in_range [OF call_p1_writes [OF that]]
    by (rule readback)
  ultimately show ?thesis
    by blast
qed

lemma readback_returns_microstep_witness:
  "fst (readEEPROM (instr_address 0x1 3 2) (snd (setup_sketch 1 (power_on blank 0 0)))) = 1
   \<and> fst (readEEPROM (instr_address_p1 0xE 3 0) (snd (setup_sketch_p1 (power_on blank 0 0))))
       = 136"
proof -
  have "(0x1, 3, ADD 1) \<in> set (calls 1)" and "(0xE, 3, OUT_p1) \<in> set calls_p1"
    by (simp_all add: calls_def calls_p1_def)
  then show ?thesis
    using readback_returns_microstep [of 1 blank 0 0]
    by (fastforce simp: tables tables_p1 signals signals_p1)
qed

lemma untouched:
  assumes "same_cells (write_all (erase_writes @ ws) (init_pins (power_on m sr lt))) s"
    and "x < 2048" and "x \<notin> set (map (cell \<circ> fst) ws)"
  shows "mem s x = 0xff"
  using assms(2,3) unfolding final_state(2) [OF assms(1)]
  by (simp add: store_all_frame store_all_erase)

lemma all_less_3: "(\<forall>t < 3. P t) \<longleftrightarrow> P (0 :: nat) \<and> P 1 \<and> P 2"
proof -
  have "t < 3 \<longleftrightarrow> t = 0 \<or> t = 1 \<or> t = 2" for t :: nat
    by auto
  then show ?thesis
    by auto
qed

lemma writes_call:
  assumes "(a, d) \<in> set (program_writes rs)"
  shows "\<exists>(i, ts, ops) \<in> set (calls rs). \<exists>t < 3. a = instr_address i ts t \<and> d = ops ! t"
  using assms unfolding program_writes_def instr_writes_def by fastforce

lemma writes_call_p1:
  assumes "(a, d) \<in> set program_writes_p1"
  shows "\<exists>(i, ts, ops) \<in> set calls_p1. \<exists>t < 3. a = instr_address_p1 i ts t \<and> d = ops ! t"
  using assms unfolding program_writes_p1_def instr_writes_p1_def by fastforce

lemma not_programmed:
  assumes "\<forall>(i, ts, ops) \<in> set (calls rs). \<forall>t < 3. int x \<noteq> instr_address i ts t"
  shows "x \<notin> set (map (cell \<circ> fst) (program_writes rs))"
proof
  assume "x \<in> set (map (cell \<circ> fst) (program_writes rs))"
  then obtain a d where m: "(a, d) \<in> set (program_writes rs)" and x: "x = cell a"
    by auto
  from program_in_range [OF m] x have "int x = a"
    by (simp add: cell_small)
  with writes_call [OF m] assms show False
    by blast
qed

lemma not_programmed_p1:
  assumes "\<forall>(i, ts, ops) \<in> set calls_p1. \<forall>t < 3. int x \<noteq> instr_address_p1 i ts t"
  shows "x \<notin> set (map (cell \<circ> fst) program_writes_p1)"
proof
  assume "x \<in> set (map (cell \<circ> fst) program_writes_p1)"
  then obtain a d where m: "(a, d) \<in> set program_writes_p1" and x: "x = cell a"
    by auto
  from program_p1_in_range [OF m] x have "int x = a"
    by (simp add: cell_small)
  with writes_call_p1 [OF m] assms show False
    by blast
qed

text \<open>
  C7. After the whole of \<^verbatim>\<open>setup\<close>, every cell of the EEPROM whose address is not the
  address computed for a step of some call of \<^verbatim>\<open>writeInstruction\<close> holds \<^verbatim>\<open>0xff\<close>: in
  \<^verbatim>\<open>control-rom.ino\<close>, for either bank, and in \<^verbatim>\<open>part_001\<close>.
\<close>

theorem unprogrammed_cells_hold_ff:
  "(\<forall>x < 2048. (\<forall>(i, ts, ops) \<in> set (calls rs). \<forall>t < 3. int x \<noteq> instr_address i ts t) \<longrightarrow>
      mem (snd (setup_sketch rs (power_on m sr lt))) x = 0xff)
   \<and> (\<forall>x < 2048. (\<forall>(i, ts, ops) \<in> set calls_p1. \<forall>t < 3. int x \<noteq> instr_address_p1 i ts t) \<longrightarrow>
      mem (snd (setup_sketch_p1 (power_on m sr lt))) x = 0xff)"
  using untouched [OF setup_sketch_cells _ not_programmed]
    untouched [OF setup_sketch_p1_cells _ not_programmed_p1]
  by blast

theorem unprogrammed_cells_hold_ff_witness:
  "mem (snd (setup_sketch 1 (power_on blank 0 0))) 63 = 0xff
   \<and> mem (snd (setup_sketch_p1 (power_on blank 0 0))) 0 = 0xff"
proof -
  have "\<forall>(i, ts, ops) \<in> set (calls 1). \<forall>t < 3. int 63 \<noteq> instr_address i ts t"
    by (simp add: calls_def upt16 all_less_3 instr_address_def Let_def)
  moreover have "\<forall>(i, ts, ops) \<in> set calls_p1. \<forall>t < 3. int 0 \<noteq> instr_address_p1 i ts t"
    by (simp add: calls_p1_def all_less_3 instr_address_p1_def)
  ultimately show ?thesis
    using unprogrammed_cells_hold_ff [of 1 blank 0 0] by simp
qed

subsection \<open>Reading back a programmed step\<close>

lemma readback_call:
  assumes "(i, ts, ops) \<in> set (calls rs)" and "t < 3"
  shows "fst (readEEPROM (instr_address i ts t) (snd (setup_sketch rs (power_on m sr lt))))
      = ops ! t"
  using setup_sketch_cells program_consistent call_writes [OF assms]
    program_in_range [OF call_writes [OF assms]]
  by (rule readback)

lemma lda_call: "(0x0, 3, LDA rs) \<in> set (calls rs)"
  by (simp add: calls_def)

text \<open>
  C9, as the sketch has it. In the bank where MI is bit 1, RO bit 3 and AI bit 6 (ROM 2),
  IO is bit 4, and the first step of LDA is IO with MI: reading back the three steps of
  opcode 0 programmed from time-step 3 gives \<^verbatim>\<open>0b00010010\<close>, \<^verbatim>\<open>0b01001000\<close> and 0.
\<close>

theorem lda_steps_read_back:
  "MI 2 = 2 \<and> RO 2 = 8 \<and> AI 2 = 64 \<and> IO 2 = 16
   \<and> fst (readEEPROM (instr_address 0x0 3 0) (snd (setup_sketch 2 (power_on m sr lt)))) = 0x12
   \<and> fst (readEEPROM (instr_address 0x0 3 1) (snd (setup_sketch 2 (power_on m sr lt)))) = 0x48
   \<and> fst (readEEPROM (instr_address 0x0 3 2) (snd (setup_sketch 2 (power_on m sr lt)))) = 0"
  using readback_call [OF lda_call, of 0 2 m sr lt] readback_call [OF lda_call, of 1 2 m sr lt]
    readback_call [OF lda_call, of 2 2 m sr lt]
  by (simp add: LDA_def signals)

text \<open>The first step read back is not \<^verbatim>\<open>0b00001010\<close>.\<close>

theorem lda_first_step_counterexample:
  "fst (readEEPROM (instr_address 0x0 3 0) (snd (setup_sketch 2 (power_on blank 0 0)))) \<noteq> 0x0A"
  using readback_call [OF lda_call, of 0 2 blank 0 0]
  by (simp add: LDA_def signals)

subsection \<open>The erase\<close>

lemma erase_state:
  "writes (erase_loop 0 (init_pins (power_on m sr lt))) = map (\<lambda>a. (a, 0xff)) [0 ..< 2048]"
  "x < 2048 \<Longrightarrow> mem (erase_loop 0 (init_pins (power_on m sr lt))) x = 0xff"
  unfolding erase_loop_writes
  by (simp_all add: after_writes [OF refl] logged_erase store_all_erase)

lemma run_logs:
  "writes (snd (setup_sketch rs (power_on m sr lt)))
     = map (\<lambda>a. (a, 0xff)) [0 ..< 2048] @ logged (program_writes rs)"
  "writes (snd (setup_sketch_p0 rs (power_on m sr lt)))
     = map (\<lambda>a. (a, 0xff)) [0 ..< 2048] @ logged (program_writes_p0 rs)"
  "writes (snd (setup_sketch_p1 (power_on m sr lt)))
     = map (\<lambda>a. (a, 0xff)) [0 ..< 2048] @ logged program_writes_p1"
  by (simp_all add: final final_p0 final_p1 logged_erase)

text \<open>
  C4, as the sketches have it. The erase loop writes \<^verbatim>\<open>0xff\<close> to the cells 0 to 2047, each
  once, in order, and to nothing else, and afterwards each of these cells holds
  \<^verbatim>\<open>0xff\<close>. All three sketches start with this loop, whatever their address layout: the
  first 2048 writes of each run are these.
\<close>

theorem erase_covers_2048_cells:
  "writes (erase_loop 0 (init_pins (power_on m sr lt))) = map (\<lambda>a. (a, 0xff)) [0 ..< 2048]
   \<and> (\<forall>x < 2048. mem (erase_loop 0 (init_pins (power_on m sr lt))) x = 0xff)
   \<and> take 2048 (writes (snd (setup_sketch rs (power_on m sr lt))))
       = map (\<lambda>a. (a, 0xff)) [0 ..< 2048]
   \<and> take 2048 (writes (snd (setup_sketch_p0 rs (power_on m sr lt))))
       = map (\<lambda>a. (a, 0xff)) [0 ..< 2048]
   \<and> take 2048 (writes (snd (setup_sketch_p1 (power_on m sr lt))))
       = map (\<lambda>a. (a, 0xff)) [0 ..< 2048]"
  by (simp add: erase_state run_logs)

theorem erase_covers_2048_cells_witness:
  "mem (erase_loop 0 (init_pins (power_on blank 0 0))) 1500 = 0xff"
  using erase_covers_2048_cells [of blank 0 0 1] by simp

text \<open>
  The layout of \<^verbatim>\<open>part_000\<close> has ten bits (\<open>layout_p0_ten_bits\<close>), and the erase of its
  run writes cell 1024 all the same.
\<close>

theorem erase_beyond_ten_bits_counterexample:
  "writes (snd (setup_sketch_p0 1 (power_on blank 0 0))) ! 1024 = (1024, 0xff)"
  by (simp add: run_logs nth_append)

subsection \<open>How often the fetch steps are written\<close>

lemma program_writes_split:
  "program_writes rs =
     concat (map (\<lambda>i. instr_writes (of_nat i, 0, FETCH rs)) [0 ..< 16])
     @ concat (map instr_writes
         [(0x0, 3, LDA rs), (0x1, 3, ADD rs), (0x2, 3, SUB rs), (0xE, 3, OUT rs),
          (0xF, 3, HALT rs)])"
  by (simp add: program_writes_def calls_def comp_def)

lemma program_writes_p1_split:
  "program_writes_p1 =
     instr_writes_p1 (0x0, 0, FETCH_p1)
     @ concat (map instr_writes_p1
         [(0x0, 3, LDA_p1), (0x1, 3, ADD_p1), (0x2, 3, SUB_p1), (0xE, 3, OUT_p1),
          (0xF, 3, HALT_p1)])"
  by (simp add: program_writes_p1_def calls_p1_def)

lemma part_001_log:
  "drop 2048 (writes (snd (setup_sketch_p1 (power_on m sr lt)))) =
    [(128, 2), (64, 0), (32, 4), (16, 0), (8, 0), (4, 0), (17, 0), (9, 16), (5, 64),
     (18, 0), (10, 16), (6, 96), (30, 136), (22, 0), (18, 0), (31, 0), (23, 0), (19, 0)]"
proof -
  define erased :: "(nat \<times> byte) list" where "erased = map (\<lambda>a. (a, 0xff)) [0 ..< 2048]"
  have "length erased = 2048"
    by (simp add: erased_def)
  then have "drop 2048 (erased @ logged program_writes_p1) = logged program_writes_p1"
    by simp
  then show ?thesis
    unfolding run_logs erased_def program_p1_log .
qed

text \<open>
  C5, as the sketches have it. After the 2048 writes of the erase, the run of
  \<^verbatim>\<open>control-rom.ino\<close> writes the three fetch steps sixteen times, once for each opcode 0
  to 15 from time-step 0, and then the five instructions from time-step 3. The run of
  \<^verbatim>\<open>part_001\<close> writes the three fetch steps once, for opcode 0, and then the five
  instructions.
\<close>

theorem fetch_steps_written:
  "writes (snd (setup_sketch rs (power_on m sr lt)))
     = map (\<lambda>a. (a, 0xff)) [0 ..< 2048]
       @ logged (concat (map (\<lambda>i. instr_writes (of_nat i, 0, FETCH rs)) [0 ..< 16]))
       @ logged (concat (map instr_writes
           [(0x0, 3, LDA rs), (0x1, 3, ADD rs), (0x2, 3, SUB rs), (0xE, 3, OUT rs),
            (0xF, 3, HALT rs)]))
   \<and> writes (snd (setup_sketch_p1 (power_on m sr lt)))
     = map (\<lambda>a. (a, 0xff)) [0 ..< 2048]
       @ logged (instr_writes_p1 (0x0, 0, FETCH_p1))
       @ logged (concat (map instr_writes_p1
           [(0x0, 3, LDA_p1), (0x1, 3, ADD_p1), (0x2, 3, SUB_p1), (0xE, 3, OUT_p1),
            (0xF, 3, HALT_p1)]))"
  unfolding run_logs
  by (simp only: program_writes_split program_writes_p1_split logged_append)

text \<open>
  The writes of a run of \<^verbatim>\<open>part_001\<close> after the erase: eighteen, the first three the
  fetch steps at the addresses of opcode 0.
\<close>

theorem fetch_written_once_counterexample:
  "drop 2048 (writes (snd (setup_sketch_p1 (power_on blank 0 0)))) =
    [(128, 2), (64, 0), (32, 4), (16, 0), (8, 0), (4, 0), (17, 0), (9, 16), (5, 64),
     (18, 0), (10, 16), (6, 96), (30, 136), (22, 0), (18, 0), (31, 0), (23, 0), (19, 0)]"
  by (rule part_001_log)

subsection \<open>Which bits of the opcode reach the address\<close>

text \<open>
  C3, as the sketches have it. \<^verbatim>\<open>part_000\<close> masks the opcode: only its low four bits
  reach the address. \<^verbatim>\<open>control-rom.ino\<close> shifts the whole opcode byte into the address and
  \<^verbatim>\<open>part_001\<close> adds the whole opcode: there the opcode and its low four bits give the
  same address exactly when the opcode is below 16.
\<close>

theorem opcode_bits_in_address:
  "instr_address_p0 i ts t = instr_address_p0 (i AND 0xF) ts t
   \<and> (instr_address i ts t = instr_address (i AND 0xF) ts t \<longleftrightarrow> i < 0x10)
   \<and> (instr_address_p1 k ts t = instr_address_p1 (k mod 16) ts t \<longleftrightarrow> 0 \<le> k \<and> k < 16)"
proof -
  have "instr_address i ts t = instr_address (i AND 0xF) ts t \<longleftrightarrow> i < 0x10"
  proof
    assume "instr_address i ts t = instr_address (i AND 0xF) ts t"
    then have "drop_bit 6 (instr_address i ts t) = drop_bit 6 (instr_address (i AND 0xF) ts t)"
      by simp
    then have "uint i = uint (i AND 0xF)"
      by (simp only: opcode_field)
    then have "i AND 0xF = i"
      by (simp only: word_uint_eq_iff [symmetric])
    then show "i < 0x10"
      by (simp only: low_nibble_iff)
  next
    assume "i < 0x10"
    then have "i AND 0xF = i"
      by (simp only: low_nibble_iff)
    then show "instr_address i ts t = instr_address (i AND 0xF) ts t"
      by simp
  qed
  moreover have "instr_address_p1 k ts t = instr_address_p1 (k mod 16) ts t
      \<longleftrightarrow> 0 \<le> k \<and> k < 16"
    unfolding instr_address_p1_def by auto
  ultimately show ?thesis
    by (simp add: instr_address_p0_masked)
qed

theorem opcode_not_masked_counterexample:
  "instr_address 0x10 0 0 \<noteq> instr_address (0x10 AND 0xF) 0 0"
  by (simp add: instr_address_def Let_def)

theorem opcode_bits_in_address_witness:
  "instr_address_p0 0x2E 3 0 = instr_address_p0 (0x2E AND 0xF) 3 0
   \<and> (0xE :: byte) < 0x10
   \<and> instr_address 0xE 3 0 = instr_address (0xE AND 0xF) 3 0
   \<and> (0 :: int) \<le> 0xE \<and> (0xE :: int) < 16
   \<and> instr_address_p1 0xE 3 0 = instr_address_p1 (0xE mod 16) 3 0"
proof -
  note a = opcode_bits_in_address [of "0x2E" 3 0 "0xE"]
  note b = opcode_bits_in_address [of "0xE" 3 0 "0xE"]
  have c: "(0xE :: byte) < 0x10" and d: "(0 :: int) \<le> 0xE \<and> (0xE :: int) < 16"
    by simp_all
  from a have "instr_address_p0 0x2E 3 0 = instr_address_p0 (0x2E AND 0xF) 3 0"
    by (rule conjunct1)
  moreover from b c have "instr_address 0xE 3 0 = instr_address (0xE AND 0xF) 3 0"
    by blast
  moreover from a d have "instr_address_p1 0xE 3 0 = instr_address_p1 (0xE mod 16) 3 0"
    by blast
  ultimately show ?thesis
    using c d by blast
qed

subsection \<open>The fields of the address\<close>

text \<open>
  In \<^verbatim>\<open>control-rom.ino\<close> the opcode is the address above bit 5 and the six bits below
  depend on the time-step alone; in \<^verbatim>\<open>part_000\<close> the opcode is the low four bits and
  the bits above depend on the time-step alone. So in both, the addresses of one opcode
  at two time-steps differ in the timing bits only.
\<close>

lemma fields_apart:
  "drop_bit 6 (instr_address i 3 t) = drop_bit 6 (instr_address i 0 t)"
  "take_bit 6 (instr_address i ts t) = take_bit 6 (instr_address i' ts t)"
  "take_bit 4 (instr_address_p0 i 3 t) = take_bit 4 (instr_address_p0 i 0 t)"
  "drop_bit 4 (instr_address_p0 i ts t) = drop_bit 4 (instr_address_p0 i' ts t)"
  by (simp_all only: opcode_field timing_field opcode_field_p0 timing_field_p0)

text \<open>
  In \<^verbatim>\<open>control-rom.ino\<close> no two writes of the programming part go to the same cell.
  In \<^verbatim>\<open>part_000\<close> the mask \<^verbatim>\<open>0x3F0\<close> drops the timing bits of time-steps 4 and 5,
  so the second and third step of every instruction go to one address.
\<close>

lemma program_cells_distinct: "distinct (map (cell \<circ> fst) (program_writes rs))"
  by (simp add: program_addresses)

lemma part_000_steps_share_address: "instr_address_p0 i 3 1 = instr_address_p0 i 3 2"
  by (simp add: instr_address_p0_def Let_def)

lemma program_p0_cells_values:
  "logged (program_writes_p0 1) =
    [(880, 2), (944, 0), (976, 4), (881, 2), (945, 0), (977, 4), (882, 2), (946, 0), (978, 4),
     (883, 2), (947, 0), (979, 4), (884, 2), (948, 0), (980, 4), (885, 2), (949, 0), (981, 4),
     (886, 2), (950, 0), (982, 4), (887, 2), (951, 0), (983, 4), (888, 2), (952, 0), (984, 4),
     (889, 2), (953, 0), (985, 4), (890, 2), (954, 0), (986, 4), (891, 2), (955, 0), (987, 4),
     (892, 2), (956, 0), (988, 4), (893, 2), (957, 0), (989, 4), (894, 2), (958, 0), (990, 4),
     (895, 2), (959, 0), (991, 4),
     (992, 0), (1008, 0), (1008, 0), (993, 0), (1009, 16), (1009, 64),
     (994, 0), (1010, 16), (1010, 96), (1006, 136), (1022, 0), (1022, 0),
     (1007, 0), (1023, 0), (1023, 0)]"
  by (simp add: program_writes_p0_def calls_p0_def instr_writes_p0_def upt16 upt3
      instr_address_p0_def Let_def cell_small logged_def tables_p0 signals_p0)


lemma store_all_last:
  "store_all ws m x = (case map_of (rev (logged ws)) x of None \<Rightarrow> m x | Some d \<Rightarrow> d)"
proof (induction ws arbitrary: m)
  case Nil
  show ?case by simp
next
  case (Cons w ws)
  obtain a d where w: "w = (a, d)"
    by (cases w)
  show ?case
    by (simp add: w Cons map_add_def split: option.splits)
qed

text \<open>
  C1, in \<^verbatim>\<open>part_000\<close>. The round trip fails there. \<^verbatim>\<open>setup\<close> calls
  \<^verbatim>\<open>writeInstruction(0x1, 3, ADD)\<close>; the mask \<^verbatim>\<open>0x3F0\<close> leaves steps 1 and 2 of the call
  the same address \<^verbatim>\<open>0x3F1\<close>. Built for ROM 1, step 1 of ADD is 16 and step 2 is 64, and
  after the whole of \<^verbatim>\<open>setup\<close> a read at the address of step 1 returns 64.
\<close>

theorem part_000_second_step_lost:
  "(0x1, 3, ADD_p0 1) \<in> set (calls_p0 1)
   \<and> instr_address_p0 0x1 3 1 = 0x3F1 \<and> instr_address_p0 0x1 3 2 = 0x3F1
   \<and> ADD_p0 1 ! 1 = 16 \<and> ADD_p0 1 ! 2 = 64
   \<and> fst (readEEPROM (instr_address_p0 0x1 3 1) (snd (setup_sketch_p0 1 (power_on m sr lt)))) = 64"
proof -
  have a: "instr_address_p0 0x1 3 1 = 1009" "instr_address_p0 0x1 3 2 = 1009"
    by (simp_all add: instr_address_p0_def Let_def)
  have "fst (readEEPROM 1009 (snd (setup_sketch_p0 1 (power_on m sr lt))))
      = mem (snd (setup_sketch_p0 1 (power_on m sr lt))) (cell 1009)"
    by (intro readEEPROM_value final_p0) simp_all
  also have "\<dots> = 64"
    unfolding final_p0 store_all_last [of "program_writes_p0 1"] program_p0_cells_values
    by (simp add: cell_small)
  finally have "fst (readEEPROM (instr_address_p0 0x1 3 1)
      (snd (setup_sketch_p0 1 (power_on m sr lt)))) = 64"
    by (simp only: a)
  moreover have "ADD_p0 1 ! 1 = 16" "ADD_p0 1 ! 2 = 64"
    by (simp_all add: tables_p0 signals_p0)
  moreover have "(0x1, 3, ADD_p0 1) \<in> set (calls_p0 1)"
    by (simp add: calls_p0_def)
  ultimately show ?thesis
    using a by blast
qed

lemma committed_bank: "ROM_SELECT = 1" "LDA ROM_SELECT = [0, 0, 0]"
  by (simp_all add: ROM_SELECT_def tables signals)

text \<open>
  C2, in \<^verbatim>\<open>part_001\<close>. The opcode is added to the timing bit, and from time-step 3 on
  the timing bit lies inside the opcode's bits. For opcode \<^verbatim>\<open>0xE\<close>, step 2 of the call from
  time-step 0 has address \<^verbatim>\<open>0x2E\<close>, step 2 of the call from time-step 3 has address
  \<^verbatim>\<open>0x12\<close>: the low four bits, where the opcode went in, are \<^verbatim>\<open>0xE\<close> and \<^verbatim>\<open>0x2\<close>. With
  the fields of the header (instruction in bits 6 to 10) the two addresses of opcode 0 at
  steps 0 and 3 differ in the instruction field as well.
\<close>

theorem part_001_opcode_bits_move:
  "instr_address_p1 0xE 0 2 = 0x2E \<and> instr_address_p1 0xE 3 2 = 0x12
   \<and> take_bit 4 (instr_address_p1 0xE 0 2) = 0xE
   \<and> take_bit 4 (instr_address_p1 0xE 3 2) = 0x2
   \<and> drop_bit 6 (instr_address_p1 0x0 0 0) = 2
   \<and> drop_bit 6 (instr_address_p1 0x0 3 0) = 0"
  by (simp add: instr_address_p1_def)

text \<open>
  C8, in \<^verbatim>\<open>part_001\<close>. Step 0 of SUB (opcode 2, from time-step 3) and step 2 of OUT
  (opcode \<^verbatim>\<open>0xE\<close>, from time-step 3) have the same address \<^verbatim>\<open>0x12\<close>, and the run writes
  that cell twice.
\<close>

theorem part_001_two_steps_one_address:
  "(0x2, 3, SUB_p1) \<in> set calls_p1 \<and> (0xE, 3, OUT_p1) \<in> set calls_p1
   \<and> instr_address_p1 0x2 3 0 = 0x12 \<and> instr_address_p1 0xE 3 2 = 0x12
   \<and> filter (\<lambda>w. fst w = 0x12)
         (drop 2048 (writes (snd (setup_sketch_p1 (power_on blank 0 0)))))
       = [(0x12, 0), (0x12, 0)]"
  by (simp add: calls_p1_def instr_address_p1_def part_001_log)

end
